theory Spec2Isabelle
  imports Complex_Main
begin

section \<open>The row-processing pipeline of the CSV geocoding tool\<close>

text \<open>
  The development embeds \<^verbatim>\<open>src/app/page.tsx\<close>: the component state of
  \<^verbatim>\<open>GeocodingApp\<close>, the request made by \<^verbatim>\<open>geocodeAddress\<close> and the
  per-row loop of \<^verbatim>\<open>processFile\<close>. What the browser and the geocoding service
  contribute (\<^verbatim>\<open>encodeURIComponent\<close>, \<^verbatim>\<open>fetch\<close>, the parsed table) is
  a parameter of the model. Observable effects (requests, progress reports, the
  inter-row pause) are logged in order in a trace.
\<close>

subsection \<open>Data\<close>

text \<open>
  A parsed table row (\<^verbatim>\<open>Papa.parse\<close> with \<^verbatim>\<open>header: true\<close>): column name to
  the text of the cell, for the row's own properties; a column that the row lacks is
  \<open>None\<close>. The row is a plain object, so reading a column that it lacks finds what
  \<^verbatim>\<open>Object.prototype\<close> has under that name (see \<open>inherited\<close> below).
\<close>

type_synonym csv_row = "string \<rightharpoonup> string"

text \<open>
  A cell of an output row: the text copied from the input, or a value taken from the
  service's answer (\<^verbatim>\<open>location.lat\<close>, \<^verbatim>\<open>location.lng\<close>), whose type \<open>'c\<close> is
  left open.
\<close>

datatype 'c cell = Text string | Coord 'c

type_synonym 'c new_row = "string \<rightharpoonup> 'c cell"

text \<open>\<^verbatim>\<open>interface GeocodingResults\<close>, lines 18-27.\<close>

record error_entry =
  row :: nat
  error :: string
  location :: string

record GeocodingResults =
  totalRows :: nat
  processedRows :: nat
  skippedRows :: "nat list"
  errors :: "error_entry list"

subsection \<open>The platform: URL encoding and the geocoding service\<close>

text \<open>
  The value of \<^verbatim>\<open>data.status\<close>: a string, or anything else (absent, a number, ...)
  together with its rendering in the template literal of line 70.
\<close>

datatype status_value = StatusString string | StatusOther string

fun status_text :: "status_value \<Rightarrow> string" where
  "status_text (StatusString s) = s"
| "status_text (StatusOther s) = s"

text \<open>
  An element of \<^verbatim>\<open>data.results\<close> as lines 123-126 read it: a falsy element; a
  truthy element on which reading \<^verbatim>\<open>.geometry.location.lat\<close> throws (with the
  exception's message); or an element with a location object, given by its
  \<^verbatim>\<open>lat\<close> and \<^verbatim>\<open>lng\<close>.
\<close>

datatype 'c geocode_result = Falsy | NoLocation string | Located 'c 'c

text \<open>
  What \<^verbatim>\<open>await fetch(url)\<close> followed by \<^verbatim>\<open>await response.json()\<close> and the read
  of \<^verbatim>\<open>data.status\<close> comes to: an exception with its message (network failure, a
  body that is not JSON, a \<^verbatim>\<open>null\<close> document), or a document with its status and
  its \<^verbatim>\<open>results\<close> field (\<open>None\<close> when the field is absent). Every request is
  taken to settle: a request that never settles leaves the run unfinished.
\<close>

datatype 'c reply = Throws string | Json status_value "'c geocode_result list option"

text \<open>
  \<open>encodeURIComponent\<close> returns the encoded text or throws (\<open>Inl\<close> the message).
  \<open>fetch k url\<close> is the answer to the request for \<open>url\<close> when \<open>k\<close> requests
  were made before it, so the service may answer the same URL differently over time.
  \<open>inherited name\<close> is what \<^verbatim>\<open>row[name]\<close> finds on \<^verbatim>\<open>Object.prototype\<close> when
  the row has no property of its own under that name: \<open>None\<close> when there is no such
  member, otherwise the text that \<^verbatim>\<open>join\<close> makes of the member. The members are
  functions and objects, so they are truthy.
\<close>

record 'c platform =
  encodeURIComponent :: "string \<Rightarrow> string + string"
  fetch :: "nat \<Rightarrow> string \<Rightarrow> 'c reply"
  inherited :: "string \<Rightarrow> string option"

text \<open>
  The members of \<^verbatim>\<open>Object.prototype\<close> in a browser, with the text V8 gives for
  them: \<^verbatim>\<open>constructor\<close> is the function \<^verbatim>\<open>Object\<close>, \<^verbatim>\<open>__proto__\<close> reads as the
  prototype object itself, the others are the built-in methods.
\<close>

definition object_prototype :: "string \<Rightarrow> string option" where
  "object_prototype name =
     (if name = ''constructor'' then Some ''function Object() { [native code] }''
      else if name = ''__proto__'' then Some ''[object Object]''
      else if name \<in> set [''toString'', ''toLocaleString'', ''valueOf'', ''hasOwnProperty'',
                ''isPrototypeOf'', ''propertyIsEnumerable'', ''__defineGetter__'',
                ''__defineSetter__'', ''__lookupGetter__'', ''__lookupSetter__'']
      then Some (''function '' @ name @ ''() { [native code] }'')
      else None)"

text \<open>
  The effects: a request for a URL, a call of \<^verbatim>\<open>setProgress\<close>, a pause of so many
  milliseconds. A progress value is a JavaScript number: a double, held here as the
  rational it denotes.
\<close>

datatype event = is_Fetch: Fetch string | is_SetProgress: SetProgress rat | is_Delay: Delay nat

definition fetch_count :: "event list \<Rightarrow> nat" where
  "fetch_count tr = length (filter is_Fetch tr)"

subsection \<open>Component state\<close>

text \<open>
  The \<^verbatim>\<open>useState\<close> variables that \<^verbatim>\<open>processFile\<close> reads or writes (lines 30-40).
  \<open>file_state\<close> is the chosen file as the table codec delivers it: \<open>Inr\<close> its
  rows, or \<open>Inl\<close> the message passed to the \<^verbatim>\<open>error\<close> callback. The state
  variables \<^verbatim>\<open>file\<close>, \<^verbatim>\<open>error\<close> and \<^verbatim>\<open>results\<close> are the fields
  \<open>file_state\<close>, \<open>error_state\<close> and \<open>results_state\<close>. \<open>trace\<close> is the log of
  effects.
\<close>

record 'c component =
  file_state :: "(string + csv_row list) option"
  apiKey :: string
  addressCol :: string
  cityCol :: string
  countryCol :: string
  processing :: bool
  progress :: rat
  error_state :: string
  results_state :: "GeocodingResults option"
  geocodedData :: "'c new_row list option"
  trace :: "event list"

subsection \<open>\<^verbatim>\<open>geocodeAddress\<close>, lines 62-74\<close>

definition geocode_url :: "string \<Rightarrow> string \<Rightarrow> string" where
  "geocode_url encodedAddress key =
     ''https://maps.googleapis.com/maps/api/geocode/json?address='' @ encodedAddress
       @ ''&key='' @ key"

text \<open>
  The result is \<open>Inl\<close> the message of the exception thrown, or \<open>Inr\<close> the
  \<^verbatim>\<open>results\<close> field of the document returned; the trace gains the request made.
\<close>

definition geocodeAddress ::
  "'c platform \<Rightarrow> string \<Rightarrow> string \<Rightarrow> event list
     \<Rightarrow> (string + 'c geocode_result list option) \<times> event list" where
  "geocodeAddress P key address tr =
     (case encodeURIComponent P address of
        Inl msg \<Rightarrow> (Inl msg, tr)
      | Inr encodedAddress \<Rightarrow>
          (let url = geocode_url encodedAddress key in
           case fetch P (fetch_count tr) url of
             Throws msg \<Rightarrow> (Inl msg, tr @ [Fetch url])
           | Json st rs \<Rightarrow>
               if st \<noteq> StatusString ''OK''
               then (Inl (''Geocoding failed: '' @ status_text st), tr @ [Fetch url])
               else (Inr rs, tr @ [Fetch url])))"

subsection \<open>Double arithmetic\<close>

text \<open>
  Line 144 computes \<^verbatim>\<open>(i + 1) / data.length * 100\<close> on doubles: each operation gives
  the exact result rounded to the nearest binary64 number, ties to the even significand.
  \<open>to_double\<close> is this rounding for zero and for magnitudes in the normal range (no
  overflow, no subnormal numbers), which is where the quotients and products of a run
  lie. \<open>binade x\<close> is the exponent \<open>e\<close> with \<open>2^e \<le> x < 2^(e+1)\<close>, found by
  halving or doubling at most 1100 times; a double has 53 significant bits, so the
  doubles of that binade are the multiples of \<open>ulp x = 2^(e-52)\<close>.
\<close>

definition pow2 :: "int \<Rightarrow> rat" where
  "pow2 e = (if 0 \<le> e then 2 ^ nat e else 1 / 2 ^ nat (- e))"

fun ilog2 :: "nat \<Rightarrow> rat \<Rightarrow> int" where
  "ilog2 0 x = 0"
| "ilog2 (Suc k) x =
     (if 2 \<le> x then ilog2 k (x / 2) + 1
      else if x < 1 then ilog2 k (2 * x) - 1
      else 0)"

definition binade :: "rat \<Rightarrow> int" where
  "binade x = ilog2 1100 x"

definition ulp :: "rat \<Rightarrow> rat" where
  "ulp x = pow2 (binade x - 52)"

definition round_half_even :: "rat \<Rightarrow> int" where
  "round_half_even m =
     (let f = \<lfloor>m\<rfloor>; d = m - of_int f
      in if d < 1 / 2 then f else if 1 / 2 < d then f + 1 else if even f then f else f + 1)"

definition to_double :: "rat \<Rightarrow> rat" where
  "to_double x = sgn x * (of_int (round_half_even (\<bar>x\<bar> / ulp \<bar>x\<bar>)) * ulp \<bar>x\<bar>)"

text \<open>The operators \<^verbatim>\<open>/\<close> and \<^verbatim>\<open>*\<close> on doubles (divisor not zero).\<close>

definition js_div :: "rat \<Rightarrow> rat \<Rightarrow> rat" where
  "js_div x y = to_double (x / y)"

definition js_mul :: "rat \<Rightarrow> rat \<Rightarrow> rat" where
  "js_mul x y = to_double (x * y)"

text \<open>
  Line 144, \<^verbatim>\<open>(i + 1) / data.length * 100\<close>, with \<open>k\<close> for \<^verbatim>\<open>i + 1\<close> and \<open>n\<close> for
  \<^verbatim>\<open>data.length\<close>; both are integers below \<open>2^53\<close> and so are doubles as they are.
\<close>

definition percent :: "nat \<Rightarrow> nat \<Rightarrow> rat" where
  "percent k n = js_mul (js_div (of_nat k) (of_nat n)) 100"

subsection \<open>The loop body of \<^verbatim>\<open>processFile\<close>, lines 109-147\<close>

text \<open>
  Lines 112-114: \<^verbatim>\<open>if (col && row[col]) locationParts.push(row[col])\<close>. An own
  cell is pushed when its text is not empty; without an own cell the inherited member,
  if any, is pushed. A part is held as the text that \<^verbatim>\<open>join\<close> makes of it.
\<close>

definition part :: "'c platform \<Rightarrow> string \<Rightarrow> csv_row \<Rightarrow> string list" where
  "part P col r =
     (if col \<noteq> [] then
        (case r col of
           None \<Rightarrow> (case inherited P col of None \<Rightarrow> [] | Some s \<Rightarrow> [s])
         | Some v \<Rightarrow> if v \<noteq> [] then [v] else [])
      else [])"

definition locationParts ::
  "'c platform \<Rightarrow> string \<Rightarrow> string \<Rightarrow> string \<Rightarrow> csv_row \<Rightarrow> string list" where
  "locationParts P address city country r =
     part P address r @ part P city r @ part P country r"

text \<open>\<^verbatim>\<open>Array.prototype.join\<close> on strings.\<close>

fun join :: "string \<Rightarrow> string list \<Rightarrow> string" where
  "join sep [] = []"
| "join sep [x] = x"
| "join sep (x # y # ys) = x @ sep @ join sep (y # ys)"

text \<open>Line 116: \<^verbatim>\<open>const newRow = { ...row }\<close>.\<close>

definition spread :: "csv_row \<Rightarrow> 'c new_row" where
  "spread r = (\<lambda>k. map_option Text (r k))"

text \<open>\<^verbatim>\<open>response.results?.[0]\<close>, line 123.\<close>

definition first_result :: "'c geocode_result list option \<Rightarrow> 'c geocode_result" where
  "first_result rs = (case rs of None \<Rightarrow> Falsy | Some [] \<Rightarrow> Falsy | Some (x # _) \<Rightarrow> x)"

text \<open>The \<^verbatim>\<open>catch\<close> block, lines 132-137.\<close>

definition caught :: "nat \<Rightarrow> string \<Rightarrow> string list \<Rightarrow> GeocodingResults \<Rightarrow> GeocodingResults" where
  "caught i msg parts results =
     results\<lparr>errors := errors results @ [\<lparr>row = i + 1, error = msg, location = join '', '' parts\<rparr>],
             skippedRows := skippedRows results @ [i + 1]\<rparr>"

text \<open>
  One iteration for row \<open>r\<close> at index \<open>i\<close> of \<open>n\<close> rows. The loop's variables are
  the local \<^verbatim>\<open>results\<close>, the local \<^verbatim>\<open>processed\<close> and the component state.
\<close>

type_synonym 'c vars = "GeocodingResults \<times> 'c new_row list \<times> 'c component"

definition row_step :: "'c platform \<Rightarrow> nat \<Rightarrow> nat \<Rightarrow> csv_row \<Rightarrow> 'c vars \<Rightarrow> 'c vars" where
  "row_step P n i r = (\<lambda>(results, processed, st).
     let parts = locationParts P (addressCol st) (cityCol st) (countryCol st) r;
         newRow = spread r;
         (results', newRow', tr) =
           (if length parts > 0 then
              (case geocodeAddress P (apiKey st) (join '', '' parts) (trace st) of
                 (Inl msg, tr) \<Rightarrow> (caught i msg parts results, newRow, tr)
               | (Inr response, tr) \<Rightarrow>
                   (case first_result response of
                      Located lat lng \<Rightarrow>
                        (results\<lparr>processedRows := processedRows results + 1\<rparr>,
                         newRow(''Latitude'' \<mapsto> Coord lat, ''Longitude'' \<mapsto> Coord lng), tr)
                    | NoLocation msg \<Rightarrow> (caught i msg parts results, newRow, tr)
                    | Falsy \<Rightarrow>
                        (results\<lparr>skippedRows := skippedRows results @ [i + 1]\<rparr>, newRow, tr)))
            else (results\<lparr>skippedRows := skippedRows results @ [i + 1]\<rparr>, newRow, trace st));
         pct = percent (i + 1) n
     in (results', processed @ [newRow'],
         st\<lparr>progress := pct, trace := tr @ [SetProgress pct, Delay 200]\<rparr>))"

text \<open>
  \<^verbatim>\<open>for (let i = 0; i < data.length; i++)\<close>: the list is \<^verbatim>\<open>data\<close> from index
  \<open>i\<close> on, \<open>n\<close> is \<^verbatim>\<open>data.length\<close>.
\<close>

fun loop :: "'c platform \<Rightarrow> nat \<Rightarrow> nat \<Rightarrow> csv_row list \<Rightarrow> 'c vars \<Rightarrow> 'c vars" where
  "loop P n i [] s = s"
| "loop P n i (r # rest) s = loop P n (i + 1) rest (row_step P n i r s)"

subsection \<open>\<^verbatim>\<open>processFile\<close>, lines 76-163\<close>

definition new_results :: "nat \<Rightarrow> GeocodingResults" where
  "new_results n = \<lparr>totalRows = n, processedRows = 0, skippedRows = [], errors = []\<rparr>"

text \<open>Lines 87-89.\<close>

definition started :: "'c component \<Rightarrow> 'c component" where
  "started st =
     st\<lparr>processing := True, error_state := [], progress := 0,
        trace := trace st @ [SetProgress 0]\<rparr>"

definition processFile :: "'c platform \<Rightarrow> 'c component \<Rightarrow> 'c component" where
  "processFile P st =
     (case file_state st of
        None \<Rightarrow> st\<lparr>error_state := ''Please select a file and at least one location column''\<rparr>
      | Some f \<Rightarrow>
          if addressCol st = [] \<and> cityCol st = [] \<and> countryCol st = []
          then st\<lparr>error_state := ''Please select a file and at least one location column''\<rparr>
          else if apiKey st = []
          then st\<lparr>error_state := ''Please enter your Google Maps API Key''\<rparr>
          else
            (case f of
               Inl msg \<Rightarrow>
                 (started st)\<lparr>error_state := ''Error processing file: '' @ msg,
                              processing := False\<rparr>
             | Inr data \<Rightarrow>
                 (case loop P (length data) 0 data (new_results (length data), [], started st) of
                    (results, processed, st') \<Rightarrow>
                      st'\<lparr>results_state := Some results, geocodedData := Some processed,
                          processing := False\<rparr>)))"

subsection \<open>Outcome of a row\<close>

text \<open>
  The definitions of this subsection observe a run; the properties are stated with
  them. Lemma \<open>row_step_eq\<close> below ties them to the loop body.
\<close>

text \<open>
  Which way row \<open>r\<close> leaves lines 118-141 in state \<open>st\<close>: the \<^verbatim>\<open>else\<close> of line 139
  (no location part), the branch of lines 124-127, the \<^verbatim>\<open>else\<close> of line 128, or the
  \<^verbatim>\<open>catch\<close> block with the message caught.
\<close>

datatype 'c outcome = NoQuery | is_Resolved: Resolved 'c 'c | Unresolved | is_Failed: Failed string

definition query :: "'c platform \<Rightarrow> 'c component \<Rightarrow> csv_row \<Rightarrow> string" where
  "query P st r =
     join '', '' (locationParts P (addressCol st) (cityCol st) (countryCol st) r)"

definition outcome :: "'c platform \<Rightarrow> 'c component \<Rightarrow> csv_row \<Rightarrow> 'c outcome" where
  "outcome P st r =
     (let parts = locationParts P (addressCol st) (cityCol st) (countryCol st) r in
      if parts = [] then NoQuery
      else
        (case fst (geocodeAddress P (apiKey st) (join '', '' parts) (trace st)) of
           Inl msg \<Rightarrow> Failed msg
         | Inr response \<Rightarrow>
             (case first_result response of
                Located lat lng \<Rightarrow> Resolved lat lng
              | NoLocation msg \<Rightarrow> Failed msg
              | Falsy \<Rightarrow> Unresolved)))"

text \<open>The outcomes of the rows in order, each in the state in which the loop reaches it.\<close>

fun outcomes :: "'c platform \<Rightarrow> nat \<Rightarrow> nat \<Rightarrow> csv_row list \<Rightarrow> 'c vars \<Rightarrow> 'c outcome list" where
  "outcomes P n i [] s = []"
| "outcomes P n i (r # rest) s =
     outcome P (snd (snd s)) r # outcomes P n (i + 1) rest (row_step P n i r s)"

definition run_outcomes :: "'c platform \<Rightarrow> 'c component \<Rightarrow> csv_row list \<Rightarrow> 'c outcome list" where
  "run_outcomes P st data =
     outcomes P (length data) 0 data (new_results (length data), [], started st)"

text \<open>What an outcome does to the tally and to the copy of the row.\<close>

fun tallied :: "nat \<Rightarrow> string \<Rightarrow> 'c outcome \<Rightarrow> GeocodingResults \<Rightarrow> GeocodingResults" where
  "tallied i q (Resolved lat lng) res = res\<lparr>processedRows := processedRows res + 1\<rparr>"
| "tallied i q (Failed msg) res =
     res\<lparr>errors := errors res @ [\<lparr>row = i + 1, error = msg, location = q\<rparr>],
         skippedRows := skippedRows res @ [i + 1]\<rparr>"
| "tallied i q _ res = res\<lparr>skippedRows := skippedRows res @ [i + 1]\<rparr>"

fun failure :: "nat \<Rightarrow> string \<Rightarrow> 'c outcome \<Rightarrow> error_entry list" where
  "failure i q (Failed msg) = [\<lparr>row = i + 1, error = msg, location = q\<rparr>]"
| "failure i q _ = []"

fun augment :: "'c outcome \<Rightarrow> 'c new_row \<Rightarrow> 'c new_row" where
  "augment (Resolved lat lng) nr = nr(''Latitude'' \<mapsto> Coord lat, ''Longitude'' \<mapsto> Coord lng)"
| "augment _ nr = nr"

text \<open>The requests that handling row \<open>r\<close> adds to the trace.\<close>

definition row_requests :: "'c platform \<Rightarrow> 'c component \<Rightarrow> csv_row \<Rightarrow> event list" where
  "row_requests P st r =
     (if locationParts P (addressCol st) (cityCol st) (countryCol st) r = [] then []
      else (case encodeURIComponent P (query P st r) of
              Inl _ \<Rightarrow> []
            | Inr e \<Rightarrow> [Fetch (geocode_url e (apiKey st))]))"

definition reports :: "event list \<Rightarrow> rat list" where
  "reports tr = concat (map (\<lambda>e. case e of SetProgress p \<Rightarrow> [p] | _ \<Rightarrow> []) tr)"

text \<open>
  The Location Query in the specification's words: the values of the selected columns
  that are non-empty for the row, in the order address, city, country. A column that is
  not selected, or that the row lacks, counts as empty (nothing is inherited).
\<close>

definition selected_values :: "'c component \<Rightarrow> csv_row \<Rightarrow> string list" where
  "selected_values st r =
     filter (\<lambda>v. v \<noteq> [])
       (map (\<lambda>c. if c = [] then [] else (case r c of None \<Rightarrow> [] | Some v \<Rightarrow> v))
          [addressCol st, cityCol st, countryCol st])"

subsection \<open>A sample run\<close>

text \<open>
  Five rows with the columns \<open>a\<close> and \<open>c\<close> selected. The service answers the first
  request with one result at (1, 2), the second with status \<^verbatim>\<open>ZERO_RESULTS\<close>, the
  third request fails in transport, and every later one gets status \<^verbatim>\<open>OK\<close> with
  an empty result list. URL encoding is left out (the identity); the prototype is the
  browser's.
\<close>

definition sample_platform :: "rat platform" where
  "sample_platform =
     \<lparr>encodeURIComponent = Inr,
      fetch = (\<lambda>k url.
        if k = 0 then Json (StatusString ''OK'') (Some [Located 1 2])
        else if k = 1 then Json (StatusString ''ZERO_RESULTS'') (Some [])
        else if k = 2 then Throws ''Failed to fetch''
        else Json (StatusString ''OK'') (Some [])),
      inherited = object_prototype\<rparr>"

definition sample_rows :: "csv_row list" where
  "sample_rows =
     [[''a'' \<mapsto> ''1 Main St'', ''c'' \<mapsto> ''Springfield'', ''Latitude'' \<mapsto> ''old''],
      [''a'' \<mapsto> [], ''c'' \<mapsto> []],
      [''a'' \<mapsto> ''Nowhere''],
      [''c'' \<mapsto> ''Paris''],
      [''a'' \<mapsto> ''Atlantis'', ''c'' \<mapsto> []]]"

definition sample_state :: "csv_row list \<Rightarrow> rat component" where
  "sample_state data =
     \<lparr>file_state = Some (Inr data), apiKey = ''K'', addressCol = ''a'', cityCol = ''c'',
      countryCol = [], processing = False, progress = 0, error_state = [],
      results_state = None, geocodedData = None, trace = []\<rparr>"

text \<open>A service that answers every request with status \<^verbatim>\<open>ZERO_RESULTS\<close> and no result.\<close>

definition zero_results_platform :: "rat platform" where
  "zero_results_platform =
     \<lparr>encodeURIComponent = Inr,
      fetch = (\<lambda>k url. Json (StatusString ''ZERO_RESULTS'') (Some [])),
      inherited = object_prototype\<rparr>"

section \<open>Properties\<close>

subsection \<open>One iteration\<close>

lemma geocodeAddress_trace:
  "snd (geocodeAddress P key q tr) =
     tr @ (case encodeURIComponent P q of Inl _ \<Rightarrow> [] | Inr e \<Rightarrow> [Fetch (geocode_url e key)])"
  by (simp add: geocodeAddress_def Let_def split: sum.splits reply.splits)

lemma row_step_eq:
  "row_step P n i r (res, pr, st) =
     (tallied i (query P st r) (outcome P st r) res,
      pr @ [augment (outcome P st r) (spread r)],
      st\<lparr>progress := percent (i + 1) n,
         trace := trace st @ row_requests P st r @ [SetProgress (percent (i + 1) n), Delay 200]\<rparr>)"
proof (cases "locationParts P (addressCol st) (cityCol st) (countryCol st) r = []")
  case True
  then show ?thesis
    by (simp add: row_step_def outcome_def query_def row_requests_def Let_def)
next
  case False
  obtain a tr where g: "geocodeAddress P (apiKey st) (query P st r) (trace st) = (a, tr)"
    by (cases "geocodeAddress P (apiKey st) (query P st r) (trace st)")
  have tr: "tr = trace st @ row_requests P st r"
    using geocodeAddress_trace[of P "apiKey st" "query P st r" "trace st"] g False
    by (simp add: row_requests_def)
  show ?thesis
  proof (cases a)
    case (Inl msg)
    with False g tr show ?thesis
      by (simp add: row_step_def outcome_def query_def caught_def Let_def)
  next
    case (Inr response)
    with False g tr show ?thesis
      by (cases "first_result response")
         (simp_all add: row_step_def outcome_def query_def caught_def Let_def)
  qed
qed

lemma tallied_totalRows: "totalRows (tallied i q oc res) = totalRows res"
  by (cases oc) simp_all

lemma tallied_processedRows:
  "processedRows (tallied i q oc res) = processedRows res + (if is_Resolved oc then 1 else 0)"
  by (cases oc) simp_all

lemma tallied_skippedRows:
  "skippedRows (tallied i q oc res) = skippedRows res @ (if is_Resolved oc then [] else [i + 1])"
  by (cases oc) simp_all

lemma tallied_errors: "errors (tallied i q oc res) = errors res @ failure i q oc"
  by (cases oc) simp_all

lemma query_update [simp]: "query P (st\<lparr>progress := p, trace := t\<rparr>) r = query P st r"
  by (simp add: query_def)

lemma row_requests_update [simp]:
  "row_requests P (st\<lparr>progress := p, trace := t\<rparr>) r = row_requests P st r"
  by (simp add: row_requests_def split: sum.splits)

subsection \<open>The loop\<close>

lemma length_outcomes [simp]: "length (outcomes P n i rows s) = length rows"
  by (induction rows arbitrary: i s) simp_all

lemma loop_totalRows: "totalRows (fst (loop P n i rows (res, pr, st))) = totalRows res"
  by (induction rows arbitrary: i res pr st) (simp_all add: row_step_eq tallied_totalRows)

lemma loop_processedRows:
  "processedRows (fst (loop P n i rows (res, pr, st))) =
     processedRows res + length (filter is_Resolved (outcomes P n i rows (res, pr, st)))"
  by (induction rows arbitrary: i res pr st) (simp_all add: row_step_eq tallied_processedRows)

lemma loop_skippedRows:
  "skippedRows (fst (loop P n i rows (res, pr, st))) =
     skippedRows res @ map (\<lambda>(j, oc). j + 1)
       (filter (\<lambda>(j, oc). \<not> is_Resolved oc) (enumerate i (outcomes P n i rows (res, pr, st))))"
  by (induction rows arbitrary: i res pr st) (simp_all add: row_step_eq tallied_skippedRows)

lemma loop_errors:
  "errors (fst (loop P n i rows (res, pr, st))) =
     errors res @ concat (map (\<lambda>(j, r, oc). failure j (query P st r) oc)
       (enumerate i (zip rows (outcomes P n i rows (res, pr, st)))))"
  by (induction rows arbitrary: i res pr st) (simp_all add: row_step_eq tallied_errors)

lemma loop_processed:
  "fst (snd (loop P n i rows (res, pr, st))) =
     pr @ map2 augment (outcomes P n i rows (res, pr, st)) (map spread rows)"
  by (induction rows arbitrary: i res pr st) (simp_all add: row_step_eq)

lemma loop_trace:
  "trace (snd (snd (loop P n i rows (res, pr, st)))) =
     trace st @ concat (map (\<lambda>(j, r). row_requests P st r
                                  @ [SetProgress (percent (j + 1) n), Delay 200])
       (enumerate i rows))"
  by (induction rows arbitrary: i res pr st) (simp_all add: row_step_eq)

subsection \<open>A run that passes the checks of lines 77-85\<close>

lemma processFile_run:
  assumes "file_state st = Some (Inr data)"
    and "addressCol st \<noteq> [] \<or> cityCol st \<noteq> [] \<or> countryCol st \<noteq> []"
    and "apiKey st \<noteq> []"
  shows "processFile P st =
     (case loop P (length data) 0 data (new_results (length data), [], started st) of
        (results, processed, st') \<Rightarrow>
          st'\<lparr>results_state := Some results, geocodedData := Some processed,
              processing := False\<rparr>)"
  using assms by (auto simp add: processFile_def)

lemma run_results:
  assumes "file_state st = Some (Inr data)"
    and "addressCol st \<noteq> [] \<or> cityCol st \<noteq> [] \<or> countryCol st \<noteq> []"
    and "apiKey st \<noteq> []"
  shows "results_state (processFile P st) =
     Some (fst (loop P (length data) 0 data (new_results (length data), [], started st)))"
  by (simp add: processFile_run[OF assms] split: prod.splits)

lemma run_geocodedData:
  assumes "file_state st = Some (Inr data)"
    and "addressCol st \<noteq> [] \<or> cityCol st \<noteq> [] \<or> countryCol st \<noteq> []"
    and "apiKey st \<noteq> []"
  shows "geocodedData (processFile P st) =
     Some (fst (snd (loop P (length data) 0 data (new_results (length data), [], started st))))"
  by (simp add: processFile_run[OF assms] split: prod.splits)

lemma run_trace:
  assumes "file_state st = Some (Inr data)"
    and "addressCol st \<noteq> [] \<or> cityCol st \<noteq> [] \<or> countryCol st \<noteq> []"
    and "apiKey st \<noteq> []"
  shows "trace (processFile P st) =
     trace (snd (snd (loop P (length data) 0 data (new_results (length data), [], started st))))"
  by (simp add: processFile_run[OF assms] split: prod.splits)

lemma started_fields [simp]:
  "addressCol (started st) = addressCol st" "cityCol (started st) = cityCol st"
  "countryCol (started st) = countryCol st" "apiKey (started st) = apiKey st"
  "trace (started st) = trace st @ [SetProgress 0]"
  by (simp_all add: started_def)

lemma query_started [simp]: "query P (started st) r = query P st r"
  by (simp add: query_def)

lemma row_requests_started [simp]: "row_requests P (started st) r = row_requests P st r"
  by (simp add: row_requests_def split: sum.splits)

lemma run_output:
  assumes "file_state st = Some (Inr data)"
    and "addressCol st \<noteq> [] \<or> cityCol st \<noteq> [] \<or> countryCol st \<noteq> []"
    and "apiKey st \<noteq> []"
  shows "geocodedData (processFile P st) =
     Some (map2 augment (run_outcomes P st data) (map spread data))"
  by (simp add: run_geocodedData[OF assms] loop_processed run_outcomes_def)

subsection \<open>Lists of skipped indices\<close>

lemma resolved_plus_skipped:
  "length (filter is_Resolved os)
     + length (filter (\<lambda>(j, oc). \<not> is_Resolved oc) (enumerate i os)) = length os"
  by (induction os arbitrary: i) simp_all

lemma distinct_skipped:
  "distinct (map (\<lambda>(j, oc). j + 1) (filter (\<lambda>(j, oc). \<not> is_Resolved oc) (enumerate i os)))"
proof -
  have "map (\<lambda>(j, oc). j + 1) (enumerate i os) = map Suc [i..<i + length os]"
    by (induction os arbitrary: i) (simp_all add: upt_rec)
  then have "distinct (map (\<lambda>(j, oc). j + 1) (enumerate i os))"
    by (simp add: distinct_map)
  then show ?thesis
    by (rule distinct_map_filter)
qed

lemma failure_row:
  "e \<in> set (failure j q oc) \<Longrightarrow> row e = j + 1 \<and> \<not> is_Resolved oc"
  by (cases oc) simp_all

lemma failure_row_skipped:
  "e \<in> set (concat (map (\<lambda>(j, r, oc). failure j (f r) oc) (enumerate i (zip rows os))))
   \<Longrightarrow> row e \<in> set (map (\<lambda>(j, oc). j + 1)
                        (filter (\<lambda>(j, oc). \<not> is_Resolved oc) (enumerate i os)))"
proof (induction os arbitrary: rows i)
  case Nil
  then show ?case by simp
next
  case (Cons oc os)
  show ?case
  proof (cases rows)
    case Nil
    with Cons.prems show ?thesis by simp
  next
    case (Cons r rest)
    with Cons.prems consider
      "e \<in> set (failure i (f r) oc)"
      | "e \<in> set (concat (map (\<lambda>(j, r, oc). failure j (f r) oc)
                            (enumerate (Suc i) (zip rest os))))"
      by auto
    then show ?thesis
    proof cases
      case 1
      then show ?thesis using failure_row[of e i "f r" oc] by simp
    next
      case 2
      then show ?thesis using Cons.IH[where rows = rest and i = "Suc i"] by simp
    qed
  qed
qed

lemma distinct_count_list: "distinct xs \<Longrightarrow> x \<in> set xs \<Longrightarrow> count_list xs x = 1"
  by (induction xs) auto

subsection \<open>The trace of a run\<close>

lemma run_trace_eq:
  assumes "file_state st = Some (Inr data)"
    and "addressCol st \<noteq> [] \<or> cityCol st \<noteq> [] \<or> countryCol st \<noteq> []"
    and "apiKey st \<noteq> []"
  shows "trace (processFile P st) =
     trace st @ SetProgress 0 #
       concat (map (\<lambda>(j, r). row_requests P st r
                                @ [SetProgress (percent (j + 1) (length data)), Delay 200])
                 (enumerate 0 data))"
  by (simp add: run_trace[OF assms] loop_trace)

lemma row_requests_kinds:
  "filter is_Fetch (row_requests P st r) = row_requests P st r"
  "filter is_Delay (row_requests P st r) = []"
  "reports (row_requests P st r) = []"
  by (auto simp add: row_requests_def reports_def split: sum.splits)

lemma reports_append: "reports (xs @ ys) = reports xs @ reports ys"
  by (simp add: reports_def)

lemma fetches_rows:
  "filter is_Fetch (concat (map (\<lambda>(j, r). row_requests P st r @ [SetProgress (f j), Delay d])
                              (enumerate i rows))) =
     concat (map (row_requests P st) rows)"
  by (induction rows arbitrary: i) (simp_all add: row_requests_kinds)

lemma delays_rows:
  "filter is_Delay (concat (map (\<lambda>(j, r). row_requests P st r @ [SetProgress (f j), Delay d])
                              (enumerate i rows))) =
     replicate (length rows) (Delay d)"
  by (induction rows arbitrary: i) (simp_all add: row_requests_kinds)

lemma reports_rows:
  "reports (concat (map (\<lambda>(j, r). row_requests P st r @ [SetProgress (f j), Delay d])
                      (enumerate i rows))) =
     map f [i..<i + length rows]"
proof (induction rows arbitrary: i)
  case Nil
  then show ?case by (simp add: reports_def)
next
  case (Cons r rows)
  have "[i..<i + length (r # rows)] = i # [Suc i..<Suc i + length rows]"
    using upt_conv_Cons[of i "i + Suc (length rows)"] by simp
  then show ?case
    using Cons.IH[of "Suc i"]
    by (simp add: reports_append row_requests_kinds) (simp add: reports_def)
qed

subsection \<open>Rows without a query\<close>

lemma locationParts_empty_iff:
  "locationParts P a c k r = []
     \<longleftrightarrow> (\<forall>col \<in> {a, c, k}.
            col = [] \<or> r col = Some [] \<or> (r col = None \<and> inherited P col = None))"
  by (auto simp add: locationParts_def part_def split: option.splits)

lemma part_own:
  "col = [] \<or> r col \<noteq> None \<or> inherited P col = None
   \<Longrightarrow> part P col r =
       filter (\<lambda>v. v \<noteq> []) [if col = [] then [] else (case r col of None \<Rightarrow> [] | Some v \<Rightarrow> v)]"
  by (auto simp add: part_def split: option.splits)

lemma locationParts_selected:
  assumes "\<forall>col \<in> {addressCol st, cityCol st, countryCol st}.
             col = [] \<or> r col \<noteq> None \<or> inherited P col = None"
  shows "locationParts P (addressCol st) (cityCol st) (countryCol st) r = selected_values st r"
proof -
  have "part P (addressCol st) r =
      filter (\<lambda>v. v \<noteq> [])
        [if addressCol st = [] then [] else (case r (addressCol st) of None \<Rightarrow> [] | Some v \<Rightarrow> v)]"
    using assms by (intro part_own) simp
  moreover have "part P (cityCol st) r =
      filter (\<lambda>v. v \<noteq> [])
        [if cityCol st = [] then [] else (case r (cityCol st) of None \<Rightarrow> [] | Some v \<Rightarrow> v)]"
    using assms by (intro part_own) simp
  moreover have "part P (countryCol st) r =
      filter (\<lambda>v. v \<noteq> [])
        [if countryCol st = [] then [] else (case r (countryCol st) of None \<Rightarrow> [] | Some v \<Rightarrow> v)]"
    using assms by (intro part_own) simp
  ultimately show ?thesis
    by (simp only: locationParts_def selected_values_def list.map filter_append[symmetric]
        append.simps)
qed

lemma outcomes_no_query:
  "j < length rows
   \<Longrightarrow> locationParts P (addressCol st) (cityCol st) (countryCol st) (rows ! j) = []
   \<Longrightarrow> outcomes P n i rows (res, pr, st) ! j = NoQuery"
proof (induction rows arbitrary: i res pr st j)
  case Nil
  then show ?case by simp
next
  case (Cons r rows)
  show ?case
  proof (cases j)
    case 0
    with Cons.prems show ?thesis by (simp add: outcome_def)
  next
    case (Suc m)
    with Cons.prems show ?thesis by (simp add: row_step_eq Cons.IH)
  qed
qed

lemma skipped_member:
  assumes "j < length os" and "\<not> is_Resolved (os ! j)"
  shows "i + j + 1 \<in> set (map (\<lambda>(j, oc). j + 1)
                             (filter (\<lambda>(j, oc). \<not> is_Resolved oc) (enumerate i os)))"
proof -
  have "(i + j, os ! j) \<in> set (enumerate i os)"
    using assms(1) by (simp add: in_set_enumerate_eq)
  then have "(i + j, os ! j) \<in> set (filter (\<lambda>(j, oc). \<not> is_Resolved oc) (enumerate i os))"
    using assms(2) by simp
  then have "(\<lambda>(j, oc). j + 1) (i + j, os ! j)
      \<in> (\<lambda>(j, oc). j + 1) ` set (filter (\<lambda>(j, oc). \<not> is_Resolved oc) (enumerate i os))"
    by (rule imageI)
  then show ?thesis by simp
qed

subsection \<open>Rounding to a double\<close>

lemma pow2_pos [simp]: "0 < pow2 e"
  by (simp add: pow2_def)

lemma pow2_Suc: "pow2 (e + 1) = 2 * pow2 e"
proof (cases "0 \<le> e")
  case True
  then show ?thesis by (simp add: pow2_def nat_add_distrib)
next
  case False
  then have "nat (- e) = Suc (nat (- (e + 1)))" by simp
  then show ?thesis using False by (simp add: pow2_def)
qed

lemma pow2_pred: "pow2 (e - 1) = pow2 e / 2"
  using pow2_Suc[of "e - 1"] by simp

lemma ilog2_unfold:
  "ilog2 k x =
     (if k = 0 then 0
      else if 2 \<le> x then ilog2 (k - 1) (x / 2) + 1
      else if x < 1 then ilog2 (k - 1) (2 * x) - 1
      else 0)"
  by (cases k) simp_all

lemma ilog2_bounds:
  "1 / 2 ^ k \<le> x \<Longrightarrow> x < 2 ^ (k + 1)
   \<Longrightarrow> pow2 (ilog2 k x) \<le> x \<and> x < 2 * pow2 (ilog2 k x)"
proof (induction k arbitrary: x)
  case 0
  then show ?case by (simp add: pow2_def)
next
  case (Suc k)
  show ?case
  proof (cases "2 \<le> x")
    case True
    have "1 / 2 ^ k \<le> x / 2"
    proof -
      have "(1::rat) / 2 ^ k \<le> 1" by (simp add: divide_le_eq)
      also have "\<dots> \<le> x / 2" using True by simp
      finally show ?thesis .
    qed
    moreover have "x / 2 < 2 ^ (k + 1)" using Suc.prems(2) by simp
    ultimately have "pow2 (ilog2 k (x / 2)) \<le> x / 2 \<and> x / 2 < 2 * pow2 (ilog2 k (x / 2))"
      by (rule Suc.IH)
    then show ?thesis using True by (simp add: pow2_Suc)
  next
    case False
    show ?thesis
    proof (cases "x < 1")
      case True
      have "1 / 2 ^ k \<le> 2 * x" using Suc.prems(1) by (simp add: field_simps)
      moreover have "2 * x < 2 ^ (k + 1)"
      proof -
        have "2 * x < 2" using True by simp
        also have "\<dots> \<le> (2::rat) ^ (k + 1)" by simp
        finally show ?thesis .
      qed
      ultimately have "pow2 (ilog2 k (2 * x)) \<le> 2 * x \<and> 2 * x < 2 * pow2 (ilog2 k (2 * x))"
        by (rule Suc.IH)
      then show ?thesis using True False by (simp add: pow2_pred)
    next
      case F2: False
      with False show ?thesis by (simp add: pow2_def)
    qed
  qed
qed

lemma binade_bounds:
  assumes "1 / 2 ^ 1100 \<le> x" and "x < 2 ^ 1101"
  shows "pow2 (binade x) \<le> x" and "x < 2 * pow2 (binade x)"
  using ilog2_bounds[of 1100 x] assms by (simp_all add: binade_def)

lemma round_half_even_error: "\<bar>of_int (round_half_even m) - m\<bar> \<le> 1 / 2"
proof -
  have "of_int \<lfloor>m\<rfloor> \<le> m" "m < of_int \<lfloor>m\<rfloor> + 1"
    by simp_all linarith
  then show ?thesis
    by (auto simp add: round_half_even_def Let_def abs_le_iff)
qed

lemma pow2_minus_nat: "pow2 (e - int k) = pow2 e / 2 ^ k"
proof (induction k)
  case 0
  then show ?case by simp
next
  case (Suc k)
  have "pow2 (e - int (Suc k)) = pow2 (e - int k - 1)"
    by (simp add: algebra_simps)
  also have "\<dots> = pow2 (e - int k) / 2"
    by (rule pow2_pred)
  finally show ?case
    by (simp add: Suc.IH)
qed

lemma ulp_eq: "ulp x = pow2 (binade x) / 2 ^ 52"
  using pow2_minus_nat[of "binade x" 52] by (simp add: ulp_def)

lemma to_double_error:
  assumes "1 / 2 ^ 1100 \<le> x" and "x < 2 ^ 1101"
  shows "\<bar>to_double x - x\<bar> \<le> x / 2 ^ 53"
proof -
  have x: "0 < x"
  proof -
    have "(0::rat) < 1 / 2 ^ 1100" by simp
    then show ?thesis using assms(1) by (rule less_le_trans)
  qed
  let ?U = "ulp x"
  let ?r = "of_int (round_half_even (x / ?U)) :: rat"
  have U: "0 < ?U"
    by (simp add: ulp_def)
  have td: "to_double x = ?r * ?U"
    using x by (simp add: to_double_def)
  have "\<bar>?r * ?U - x\<bar> = \<bar>?r - x / ?U\<bar> * ?U"
  proof -
    have "?r * ?U - x = (?r - x / ?U) * ?U"
      using U by (simp add: field_simps)
    then show ?thesis
      using U by (simp add: abs_mult)
  qed
  also have "\<dots> \<le> 1 / 2 * ?U"
    using round_half_even_error[of "x / ?U"] U by (intro mult_right_mono) simp_all
  also have "\<dots> = pow2 (binade x) / 2 ^ 53"
    by (simp add: ulp_eq)
  also have "\<dots> \<le> x / 2 ^ 53"
    using binade_bounds(1)[OF assms] by (simp add: divide_right_mono)
  finally show ?thesis
    by (simp add: td)
qed

text \<open>A narrower range, enough for the quotients and products of a run.\<close>

lemma to_double_near:
  assumes "1 / 2 ^ 40 \<le> x" and "x \<le> 2 ^ 40"
  shows "x * (1 - 1 / 2 ^ 53) \<le> to_double x" and "to_double x \<le> x * (1 + 1 / 2 ^ 53)"
proof -
  have "(1::rat) / 2 ^ 1100 \<le> 1 / 2 ^ 40"
    by (intro divide_left_mono power_increasing) simp_all
  then have lo: "1 / 2 ^ 1100 \<le> x"
    using assms(1) by (rule order_trans)
  have "(2::rat) ^ 40 < 2 ^ 1101"
    by (intro power_strict_increasing) simp_all
  with assms(2) have hi: "x < 2 ^ 1101"
    by (rule le_less_trans)
  have e: "\<bar>to_double x - x\<bar> \<le> x / 2 ^ 53"
    using lo hi by (rule to_double_error)
  define d where "d = x / 2 ^ 53"
  have d: "\<bar>to_double x - x\<bar> \<le> d"
    using e by (simp only: d_def)
  have lo_eq: "x * (1 - 1 / 2 ^ 53) = x - d" and hi_eq: "x * (1 + 1 / 2 ^ 53) = x + d"
    by (simp_all only: d_def right_diff_distrib distrib_left mult_1_right times_divide_eq_right)
  show "x * (1 - 1 / 2 ^ 53) \<le> to_double x"
    unfolding lo_eq using d by linarith
  show "to_double x \<le> x * (1 + 1 / 2 ^ 53)"
    unfolding hi_eq using d by linarith
qed

lemma percent_near:
  assumes "0 < k" and "k \<le> n" and "n < 2 ^ 32"
  shows "of_nat k / of_nat n * 100 * (1 - 1 / 2 ^ 53) * (1 - 1 / 2 ^ 53) \<le> percent k n"
    and "percent k n \<le> of_nat k / of_nat n * 100 * (1 + 1 / 2 ^ 53) * (1 + 1 / 2 ^ 53)"
proof -
  let ?q = "of_nat k / of_nat n :: rat"
  let ?a = "to_double ?q"
  have n: "(0::rat) < of_nat n" "(of_nat n :: rat) < 2 ^ 32"
    using assms by (simp_all add: of_nat_less_numeral_power_cancel_iff)
  have k: "(1::rat) \<le> of_nat k" "(of_nat k :: rat) \<le> of_nat n"
    using assms by simp_all
  have q_hi: "?q \<le> 1"
    using n k by (simp add: divide_le_eq)
  have q_lo: "1 / 2 ^ 32 \<le> ?q"
  proof -
    have "(1::rat) / 2 ^ 32 \<le> 1 / of_nat n"
      using n by (intro divide_left_mono) simp_all
    also have "\<dots> \<le> ?q"
      using n k by (intro divide_right_mono) simp_all
    finally show ?thesis .
  qed
  have "(1::rat) / 2 ^ 40 \<le> 1 / 2 ^ 32"
    by simp
  then have q_lo': "1 / 2 ^ 40 \<le> ?q"
    using q_lo by (rule order_trans)
  have "(1::rat) \<le> 2 ^ 40"
    by simp
  with q_hi have q_hi': "?q \<le> 2 ^ 40"
    by (rule order_trans)
  have a: "?q * (1 - 1 / 2 ^ 53) \<le> ?a" "?a \<le> ?q * (1 + 1 / 2 ^ 53)"
    using q_lo' q_hi' by (rule to_double_near)+
  have a_lo: "1 / 2 ^ 40 \<le> ?a * 100"
    using a(1) q_lo by simp
  have a_hi: "?a * 100 \<le> 2 ^ 40"
    using a(2) q_hi by simp
  have p: "?a * 100 * (1 - 1 / 2 ^ 53) \<le> percent k n"
    "percent k n \<le> ?a * 100 * (1 + 1 / 2 ^ 53)"
    using to_double_near[OF a_lo a_hi] by (simp_all add: percent_def js_mul_def js_div_def)
  have "?q * 100 * (1 - 1 / 2 ^ 53) * (1 - 1 / 2 ^ 53) \<le> ?a * 100 * (1 - 1 / 2 ^ 53)"
    using a(1) by simp
  then show "?q * 100 * (1 - 1 / 2 ^ 53) * (1 - 1 / 2 ^ 53) \<le> percent k n"
    using p(1) by (rule order_trans)
  have "?a * 100 * (1 + 1 / 2 ^ 53) \<le> ?q * 100 * (1 + 1 / 2 ^ 53) * (1 + 1 / 2 ^ 53)"
    using a(2) by simp
  with p(2) show "percent k n \<le> ?q * 100 * (1 + 1 / 2 ^ 53) * (1 + 1 / 2 ^ 53)"
    by (rule order_trans)
qed

lemma percent_less:
  assumes "0 < j" and "j < k" and "k \<le> n" and "n < 2 ^ 32"
  shows "percent j n < percent k n"
proof -
  have n: "(0::rat) < of_nat n"
    using assms by simp
  have jk: "(of_nat j :: rat) + 1 \<le> of_nat k"
  proof -
    have "Suc j \<le> k"
      using assms(2) by simp
    then have "(of_nat (Suc j) :: rat) \<le> of_nat k"
      by (simp only: of_nat_le_iff)
    then show ?thesis
      by (simp add: add.commute)
  qed
  have j: "(of_nat j :: rat) < 2 ^ 32"
    using assms by (simp add: of_nat_less_numeral_power_cancel_iff)
  have j0: "(0::rat) < of_nat j"
    using assms by simp
  have "of_nat j * ((1 + 1 / 2 ^ 53) * (1 + 1 / 2 ^ 53))
      < (of_nat k :: rat) * ((1 - 1 / 2 ^ 53) * (1 - 1 / 2 ^ 53))"
    using jk j j0 by simp
  then have "of_nat j * ((1 + 1 / 2 ^ 53) * (1 + 1 / 2 ^ 53)) / of_nat n * 100
      < (of_nat k :: rat) * ((1 - 1 / 2 ^ 53) * (1 - 1 / 2 ^ 53)) / of_nat n * 100"
    using n by (simp add: divide_strict_right_mono)
  then have "of_nat j / of_nat n * 100 * (1 + 1 / 2 ^ 53) * (1 + 1 / 2 ^ 53)
      < (of_nat k :: rat) / of_nat n * 100 * (1 - 1 / 2 ^ 53) * (1 - 1 / 2 ^ 53)"
    by (simp add: algebra_simps)
  moreover have "percent j n \<le> of_nat j / of_nat n * 100 * (1 + 1 / 2 ^ 53) * (1 + 1 / 2 ^ 53)"
    using assms by (intro percent_near(2)) simp_all
  moreover have "of_nat k / of_nat n * 100 * (1 - 1 / 2 ^ 53) * (1 - 1 / 2 ^ 53) \<le> percent k n"
    using assms by (intro percent_near(1)) simp_all
  ultimately show ?thesis
    by linarith
qed

lemma percent_pos:
  assumes "0 < k" and "k \<le> n" and "n < 2 ^ 32"
  shows "0 < percent k n"
proof -
  have "(0::rat) < of_nat k / of_nat n * 100 * (1 - 1 / 2 ^ 53) * (1 - 1 / 2 ^ 53)"
    using assms by simp
  then show ?thesis
    using percent_near(1)[OF assms] by (rule less_le_trans)
qed

lemma to_double_1: "to_double 1 = 1"
  by code_simp

lemma to_double_100: "to_double 100 = 100"
  by code_simp

lemma percent_all: "0 < n \<Longrightarrow> percent n n = 100"
  by (simp add: percent_def js_mul_def js_div_def to_double_1 to_double_100)

lemma percent_full:
  assumes "0 < k" and "k \<le> n" and "n < 2 ^ 32"
  shows "percent k n = 100 \<longleftrightarrow> k = n"
proof
  assume p: "percent k n = 100"
  show "k = n"
  proof (rule ccontr)
    assume "k \<noteq> n"
    with assms(2) have "k < n" by simp
    then have "percent k n < percent n n"
      using assms by (intro percent_less) simp_all
    then show False
      using p assms by (simp add: percent_all)
  qed
next
  assume "k = n"
  then show "percent k n = 100"
    using assms by (simp add: percent_all)
qed

lemma percent_close:
  assumes "0 < k" and "k \<le> n" and "n < 2 ^ 32"
  shows "\<bar>percent k n - of_nat k / of_nat n * 100\<bar> \<le> 1 / 2 ^ 44"
proof -
  define E :: rat where "E = of_nat k / of_nat n * 100"
  have E: "0 \<le> E" "E \<le> 100"
    using assms by (simp_all add: E_def divide_le_eq)
  have lo: "E * (1 - 1 / 2 ^ 53) * (1 - 1 / 2 ^ 53) \<le> percent k n"
    and hi: "percent k n \<le> E * (1 + 1 / 2 ^ 53) * (1 + 1 / 2 ^ 53)"
    unfolding E_def using assms by (rule percent_near)+
  have "E * (1 - 1 / 2 ^ 53) * (1 - 1 / 2 ^ 53) = E - E * (2 / 2 ^ 53 - 1 / 2 ^ 106)"
    and "E * (1 + 1 / 2 ^ 53) * (1 + 1 / 2 ^ 53) = E + E * (2 / 2 ^ 53 + 1 / 2 ^ 106)"
    by (simp_all add: algebra_simps)
  moreover have "E * (2 / 2 ^ 53 - 1 / 2 ^ 106) \<le> 100 * (2 / 2 ^ 53 - 1 / 2 ^ 106)"
    and "E * (2 / 2 ^ 53 + 1 / 2 ^ 106) \<le> 100 * (2 / 2 ^ 53 + 1 / 2 ^ 106)"
    using E by (intro mult_right_mono; simp)+
  moreover have "(100::rat) * (2 / 2 ^ 53 - 1 / 2 ^ 106) \<le> 1 / 2 ^ 44"
    and "(100::rat) * (2 / 2 ^ 53 + 1 / 2 ^ 106) \<le> 1 / 2 ^ 44"
    by simp_all
  ultimately show ?thesis
    unfolding E_def[symmetric] using lo hi by linarith
qed

lemma percent_increasing:
  assumes "n < 2 ^ 32"
  shows "sorted_wrt (<) (0 # map (\<lambda>j. percent (j + 1) n) [0..<n])"
proof -
  have "sorted_wrt (\<lambda>j k. percent (j + 1) n < percent (k + 1) n) [0..<n]"
  proof (rule sorted_wrt_mono_rel[of "[0..<n]" "(<)"])
    fix j k
    assume "j \<in> set [0..<n]" and "k \<in> set [0..<n]" and "j < k"
    then show "percent (j + 1) n < percent (k + 1) n"
      using assms by (intro percent_less) simp_all
  qed simp
  moreover have "\<forall>j \<in> set [0..<n]. 0 < percent (j + 1) n"
    using assms by (auto intro!: percent_pos)
  ultimately show ?thesis
    by (simp add: sorted_wrt_map)
qed

text \<open>The percentages of the sample runs.\<close>

lemma percent_samples:
  "percent (Suc 0) (Suc 0) = 100"
  "percent (Suc 0) (Suc (Suc 0)) = 50"
  "percent (Suc (Suc 0)) (Suc (Suc 0)) = 100"
  "percent (Suc 0) (Suc (Suc (Suc (Suc (Suc 0))))) = 20"
  "percent (Suc (Suc 0)) (Suc (Suc (Suc (Suc (Suc 0))))) = 40"
  "percent (Suc (Suc (Suc 0))) (Suc (Suc (Suc (Suc (Suc 0))))) = 60"
  "percent (Suc (Suc (Suc (Suc 0)))) (Suc (Suc (Suc (Suc (Suc 0))))) = 80"
  "percent (Suc (Suc (Suc (Suc (Suc 0))))) (Suc (Suc (Suc (Suc (Suc 0))))) = 100"
  by code_simp+

subsection \<open>The sample run, evaluated\<close>

lemmas run_simps = processFile_def started_def new_results_def row_step_def geocodeAddress_def
  locationParts_def part_def first_result_def caught_def geocode_url_def fetch_count_def
  object_prototype_def percent_samples Let_def

lemma sample_results:
  "results_state (processFile sample_platform (sample_state sample_rows)) =
     Some \<lparr>totalRows = 5, processedRows = 1, skippedRows = [2, 3, 4, 5],
           errors = [\<lparr>row = 3, error = ''Geocoding failed: ZERO_RESULTS'', location = ''Nowhere''\<rparr>,
                     \<lparr>row = 4, error = ''Failed to fetch'', location = ''Paris''\<rparr>]\<rparr>"
  by (simp add: run_simps sample_platform_def sample_state_def sample_rows_def)

lemma sample_outcomes:
  "run_outcomes sample_platform (sample_state sample_rows) sample_rows =
     [Resolved 1 2, NoQuery, Failed ''Geocoding failed: ZERO_RESULTS'',
      Failed ''Failed to fetch'', Unresolved]"
  by (simp add: run_outcomes_def outcome_def run_simps sample_platform_def sample_state_def
      sample_rows_def)

lemma sample_ready:
  "file_state (sample_state data) = Some (Inr data)"
  "addressCol (sample_state data) = ''a''"
  "cityCol (sample_state data) = ''c''"
  "countryCol (sample_state data) = []"
  "apiKey (sample_state data) = ''K''"
  "trace (sample_state data) = []"
  by (simp_all add: sample_state_def)

section \<open>The claims\<close>

text \<open>
  C1. In a run that passes the configuration checks and reads its file, the final tally
  has \<open>totalRows\<close> equal to the number of rows and
  \<open>processedRows + |skippedRows| = totalRows\<close>: \<open>processedRows\<close> counts the rows
  that were resolved, and \<open>skippedRows\<close> lists, in order and each once, the 1-based
  indices of all the other rows (no query, unresolved, failed).
\<close>

theorem tally_partitions_rows:
  assumes "file_state st = Some (Inr data)"
    and "addressCol st \<noteq> [] \<or> cityCol st \<noteq> [] \<or> countryCol st \<noteq> []"
    and "apiKey st \<noteq> []"
  shows "\<exists>R. results_state (processFile P st) = Some R
     \<and> totalRows R = length data
     \<and> processedRows R + length (skippedRows R) = totalRows R
     \<and> processedRows R = length (filter is_Resolved (run_outcomes P st data))
     \<and> skippedRows R = map (\<lambda>(j, oc). j + 1)
          (filter (\<lambda>(j, oc). \<not> is_Resolved oc) (enumerate 0 (run_outcomes P st data)))
     \<and> distinct (skippedRows R)"
proof -
  let ?s = "(new_results (length data), [], started st)"
  let ?R = "fst (loop P (length data) 0 data ?s)"
  let ?os = "run_outcomes P st data"
  have total: "totalRows ?R = length data"
    by (simp add: loop_totalRows new_results_def)
  have proc: "processedRows ?R = length (filter is_Resolved ?os)"
    by (simp add: loop_processedRows run_outcomes_def new_results_def)
  have skip: "skippedRows ?R = map (\<lambda>(j, oc). j + 1)
      (filter (\<lambda>(j, oc). \<not> is_Resolved oc) (enumerate 0 ?os))"
    by (simp add: loop_skippedRows run_outcomes_def new_results_def)
  have len: "length ?os = length data"
    by (simp add: run_outcomes_def)
  have sum: "processedRows ?R + length (skippedRows ?R) = totalRows ?R"
    using resolved_plus_skipped[of ?os 0] by (simp add: total proc skip len)
  have dist: "distinct (skippedRows ?R)"
    unfolding skip by (rule distinct_skipped)
  show ?thesis
    using run_results[OF assms, of P] total sum proc skip dist by blast
qed

theorem tally_partitions_rows_witness:
  "file_state (sample_state sample_rows) = Some (Inr sample_rows)
   \<and> addressCol (sample_state sample_rows) = ''a''
   \<and> apiKey (sample_state sample_rows) = ''K''
   \<and> (\<exists>R. results_state (processFile sample_platform (sample_state sample_rows)) = Some R
        \<and> totalRows R = 5 \<and> processedRows R = 1 \<and> skippedRows R = [2, 3, 4, 5]
        \<and> processedRows R + length (skippedRows R) = totalRows R
        \<and> distinct (skippedRows R))"
proof -
  have h1: "file_state (sample_state sample_rows) = Some (Inr sample_rows)"
    by (simp add: sample_ready)
  have h2: "addressCol (sample_state sample_rows) \<noteq> [] \<or> cityCol (sample_state sample_rows) \<noteq> []
      \<or> countryCol (sample_state sample_rows) \<noteq> []"
    by (simp add: sample_ready)
  have h3: "apiKey (sample_state sample_rows) \<noteq> []"
    by (simp add: sample_ready)
  show ?thesis
    using tally_partitions_rows[OF h1 h2 h3, of sample_platform] sample_results
    by (auto simp add: sample_ready)
qed

text \<open>
  C2. In a run that passes the configuration checks and reads its file, the output has
  as many rows as the input, and the row at each position is the copy of the input row
  at that position, with \<open>Latitude\<close> and \<open>Longitude\<close> set when that row was resolved:
  under every key other than these two, and under these two as well when the row was
  not resolved, the output row holds the text that the input row holds, and lacks the
  key where the input row lacks it.
\<close>

theorem output_rows_in_order:
  assumes "file_state st = Some (Inr data)"
    and "addressCol st \<noteq> [] \<or> cityCol st \<noteq> [] \<or> countryCol st \<noteq> []"
    and "apiKey st \<noteq> []"
  shows "\<exists>out. geocodedData (processFile P st) = Some out
     \<and> length out = length data
     \<and> (\<forall>j < length data.
           out ! j = augment (run_outcomes P st data ! j) (spread (data ! j)))
     \<and> (\<forall>j < length data. \<forall>k.
           (k \<noteq> ''Latitude'' \<and> k \<noteq> ''Longitude'') \<or> \<not> is_Resolved (run_outcomes P st data ! j)
           \<longrightarrow> (out ! j) k = map_option Text ((data ! j) k))"
proof -
  let ?out = "map2 augment (run_outcomes P st data) (map spread data)"
  have "geocodedData (processFile P st) = Some ?out"
    by (rule run_output[OF assms])
  moreover have "length ?out = length data"
    by (simp add: run_outcomes_def)
  moreover have nth: "\<forall>j < length data.
      ?out ! j = augment (run_outcomes P st data ! j) (spread (data ! j))"
    by (simp add: run_outcomes_def)
  moreover have "\<forall>j < length data. \<forall>k.
      (k \<noteq> ''Latitude'' \<and> k \<noteq> ''Longitude'') \<or> \<not> is_Resolved (run_outcomes P st data ! j)
      \<longrightarrow> (?out ! j) k = map_option Text ((data ! j) k)"
  proof (intro allI impI)
    fix j k
    assume j: "j < length data"
      and k: "(k \<noteq> ''Latitude'' \<and> k \<noteq> ''Longitude'')
        \<or> \<not> is_Resolved (run_outcomes P st data ! j)"
    have "augment (run_outcomes P st data ! j) (spread (data ! j)) k
        = map_option Text ((data ! j) k)"
      using k by (cases "run_outcomes P st data ! j") (auto simp add: spread_def)
    then show "(?out ! j) k = map_option Text ((data ! j) k)"
      using nth j by simp
  qed
  ultimately show ?thesis by blast
qed

theorem output_rows_in_order_witness:
  "file_state (sample_state sample_rows) = Some (Inr sample_rows)
   \<and> addressCol (sample_state sample_rows) = ''a''
   \<and> apiKey (sample_state sample_rows) = ''K''
   \<and> (\<exists>out. geocodedData (processFile sample_platform (sample_state sample_rows)) = Some out
        \<and> length out = 5
        \<and> out ! 0 = (spread (sample_rows ! 0))(''Latitude'' \<mapsto> Coord 1, ''Longitude'' \<mapsto> Coord 2)
        \<and> out ! 1 = spread (sample_rows ! 1)
        \<and> out ! 4 = spread (sample_rows ! 4)
        \<and> (out ! 0) ''c'' = Some (Text ''Springfield'')
        \<and> (out ! 2) ''a'' = Some (Text ''Nowhere'')
        \<and> (out ! 2) ''Latitude'' = None
        \<and> (out ! 3) ''c'' = Some (Text ''Paris'')
        \<and> (out ! 3) ''a'' = None)"
proof -
  have h1: "file_state (sample_state sample_rows) = Some (Inr sample_rows)"
    by (simp add: sample_ready)
  have h2: "addressCol (sample_state sample_rows) \<noteq> [] \<or> cityCol (sample_state sample_rows) \<noteq> []
      \<or> countryCol (sample_state sample_rows) \<noteq> []"
    by (simp add: sample_ready)
  have h3: "apiKey (sample_state sample_rows) \<noteq> []"
    by (simp add: sample_ready)
  have len: "length sample_rows = 5"
    by (simp add: sample_rows_def)
  from output_rows_in_order[OF h1 h2 h3, of sample_platform] obtain out where
    out: "geocodedData (processFile sample_platform (sample_state sample_rows)) = Some out"
    and len_out: "length out = length sample_rows"
    and nth_out: "\<forall>j < length sample_rows.
      out ! j = augment (run_outcomes sample_platform (sample_state sample_rows) sample_rows ! j)
                  (spread (sample_rows ! j))"
    and cell_out: "\<forall>j < length sample_rows. \<forall>k.
      (k \<noteq> ''Latitude'' \<and> k \<noteq> ''Longitude'')
        \<or> \<not> is_Resolved (run_outcomes sample_platform (sample_state sample_rows) sample_rows ! j)
      \<longrightarrow> (out ! j) k = map_option Text ((sample_rows ! j) k)"
    by blast
  have cells: "(sample_rows ! 0) ''c'' = Some ''Springfield''"
    "(sample_rows ! 2) ''a'' = Some ''Nowhere''" "(sample_rows ! 2) ''Latitude'' = None"
    "(sample_rows ! 3) ''c'' = Some ''Paris''" "(sample_rows ! 3) ''a'' = None"
    by (simp_all add: sample_rows_def)
  have "(out ! 0) ''c'' = Some (Text ''Springfield'')"
    using cell_out[rule_format, of 0 "''c''"] cells by (simp add: len)
  moreover have "(out ! 2) ''a'' = Some (Text ''Nowhere'')"
    using cell_out[rule_format, of 2 "''a''"] cells by (simp add: len)
  moreover have "(out ! 2) ''Latitude'' = None"
    using cell_out[rule_format, of 2 "''Latitude''"] cells by (simp add: len sample_outcomes)
  moreover have "(out ! 3) ''c'' = Some (Text ''Paris'')"
    using cell_out[rule_format, of 3 "''c''"] cells by (simp add: len)
  moreover have "(out ! 3) ''a'' = None"
    using cell_out[rule_format, of 3 "''a''"] cells by (simp add: len)
  moreover
  have "out ! 0 = (spread (sample_rows ! 0))(''Latitude'' \<mapsto> Coord 1, ''Longitude'' \<mapsto> Coord 2)"
    using nth_out[rule_format, of 0] by (simp add: len sample_outcomes)
  moreover have "out ! 1 = spread (sample_rows ! 1)"
    using nth_out[rule_format, of 1] by (simp add: len sample_outcomes)
  moreover have "out ! 4 = spread (sample_rows ! 4)"
    using nth_out[rule_format, of 4] by (simp add: len sample_outcomes)
  ultimately show ?thesis
    using out len_out by (simp add: sample_ready len)
qed

text \<open>
  C4. In a run that passes the configuration checks and reads its file, \<open>errors\<close>
  holds one entry for each failed row and no other, in row order, with that row's
  1-based index, the message caught and the query text; every index in \<open>errors\<close>
  is in \<open>skippedRows\<close>, where it occurs exactly once.
\<close>

theorem errors_within_skipped:
  assumes "file_state st = Some (Inr data)"
    and "addressCol st \<noteq> [] \<or> cityCol st \<noteq> [] \<or> countryCol st \<noteq> []"
    and "apiKey st \<noteq> []"
  shows "\<exists>R. results_state (processFile P st) = Some R
     \<and> errors R = concat (map (\<lambda>(j, r, oc). failure j (query P st r) oc)
                      (enumerate 0 (zip data (run_outcomes P st data))))
     \<and> set (map row (errors R)) \<subseteq> set (skippedRows R)
     \<and> (\<forall>e \<in> set (errors R). count_list (skippedRows R) (row e) = 1)"
proof -
  let ?s = "(new_results (length data), [], started st)"
  let ?R = "fst (loop P (length data) 0 data ?s)"
  let ?os = "run_outcomes P st data"
  have err: "errors ?R = concat (map (\<lambda>(j, r, oc). failure j (query P st r) oc)
      (enumerate 0 (zip data ?os)))"
    by (simp add: loop_errors run_outcomes_def new_results_def)
  have skip: "skippedRows ?R = map (\<lambda>(j, oc). j + 1)
      (filter (\<lambda>(j, oc). \<not> is_Resolved oc) (enumerate 0 ?os))"
    by (simp add: loop_skippedRows run_outcomes_def new_results_def)
  have mem: "row e \<in> set (skippedRows ?R)" if "e \<in> set (errors ?R)" for e
    using that failure_row_skipped[of e "query P st" 0 data ?os] unfolding err skip by blast
  have sub: "set (map row (errors ?R)) \<subseteq> set (skippedRows ?R)"
    using mem by auto
  have dist: "distinct (skippedRows ?R)"
    unfolding skip by (rule distinct_skipped)
  have once: "\<forall>e \<in> set (errors ?R). count_list (skippedRows ?R) (row e) = 1"
    using mem dist by (simp add: distinct_count_list)
  show ?thesis
    using run_results[OF assms, of P] err sub once by blast
qed

theorem errors_within_skipped_witness:
  "file_state (sample_state sample_rows) = Some (Inr sample_rows)
   \<and> addressCol (sample_state sample_rows) = ''a''
   \<and> apiKey (sample_state sample_rows) = ''K''
   \<and> (\<exists>R. results_state (processFile sample_platform (sample_state sample_rows)) = Some R
        \<and> errors R = [\<lparr>row = 3, error = ''Geocoding failed: ZERO_RESULTS'', location = ''Nowhere''\<rparr>,
                      \<lparr>row = 4, error = ''Failed to fetch'', location = ''Paris''\<rparr>]
        \<and> skippedRows R = [2, 3, 4, 5]
        \<and> set (map row (errors R)) \<subseteq> set (skippedRows R)
        \<and> count_list (skippedRows R) 3 = 1 \<and> count_list (skippedRows R) 4 = 1)"
proof -
  have h1: "file_state (sample_state sample_rows) = Some (Inr sample_rows)"
    by (simp add: sample_ready)
  have h2: "addressCol (sample_state sample_rows) \<noteq> [] \<or> cityCol (sample_state sample_rows) \<noteq> []
      \<or> countryCol (sample_state sample_rows) \<noteq> []"
    by (simp add: sample_ready)
  have h3: "apiKey (sample_state sample_rows) \<noteq> []"
    by (simp add: sample_ready)
  from errors_within_skipped[OF h1 h2 h3, of sample_platform] obtain R where
    R: "results_state (processFile sample_platform (sample_state sample_rows)) = Some R"
    and sub: "set (map row (errors R)) \<subseteq> set (skippedRows R)"
    and once: "\<forall>e \<in> set (errors R). count_list (skippedRows R) (row e) = 1"
    by blast
  have err: "errors R = [\<lparr>row = 3, error = ''Geocoding failed: ZERO_RESULTS'', location = ''Nowhere''\<rparr>,
      \<lparr>row = 4, error = ''Failed to fetch'', location = ''Paris''\<rparr>]"
    and skip: "skippedRows R = [2, 3, 4, 5]"
    using R sample_results by auto
  have "count_list (skippedRows R) 3 = 1" and "count_list (skippedRows R) 4 = 1"
    using once unfolding err by simp_all
  then show ?thesis
    using R sub err skip h1 by (simp add: sample_ready)
qed

text \<open>
  C10. When a row is resolved, its output row has \<open>Latitude\<close> and \<open>Longitude\<close> set
  to the coordinates found, whatever the input row held under these two names, and
  every other field is the input row's.
\<close>

theorem coordinates_overwrite:
  assumes "file_state st = Some (Inr data)"
    and "addressCol st \<noteq> [] \<or> cityCol st \<noteq> [] \<or> countryCol st \<noteq> []"
    and "apiKey st \<noteq> []"
    and "j < length data"
    and "run_outcomes P st data ! j = Resolved lat lng"
  shows "\<exists>out. geocodedData (processFile P st) = Some out
     \<and> (out ! j) ''Latitude'' = Some (Coord lat)
     \<and> (out ! j) ''Longitude'' = Some (Coord lng)
     \<and> (\<forall>k. k \<noteq> ''Latitude'' \<and> k \<noteq> ''Longitude''
            \<longrightarrow> (out ! j) k = map_option Text ((data ! j) k))"
proof -
  let ?out = "map2 augment (run_outcomes P st data) (map spread data)"
  have out: "geocodedData (processFile P st) = Some ?out"
    by (rule run_output[OF assms(1-3)])
  have "?out ! j = augment (Resolved lat lng) (spread (data ! j))"
    using assms(4,5) by (simp add: run_outcomes_def)
  then have "(?out ! j) ''Latitude'' = Some (Coord lat)"
    and "(?out ! j) ''Longitude'' = Some (Coord lng)"
    and "\<forall>k. k \<noteq> ''Latitude'' \<and> k \<noteq> ''Longitude''
          \<longrightarrow> (?out ! j) k = map_option Text ((data ! j) k)"
    by (simp_all add: spread_def)
  with out show ?thesis by blast
qed

theorem coordinates_overwrite_witness:
  "file_state (sample_state sample_rows) = Some (Inr sample_rows)
   \<and> addressCol (sample_state sample_rows) = ''a''
   \<and> apiKey (sample_state sample_rows) = ''K''
   \<and> run_outcomes sample_platform (sample_state sample_rows) sample_rows ! 0 = Resolved 1 2
   \<and> (sample_rows ! 0) ''Latitude'' = Some ''old''
   \<and> (\<exists>out. geocodedData (processFile sample_platform (sample_state sample_rows)) = Some out
        \<and> (out ! 0) ''Latitude'' = Some (Coord 1)
        \<and> (out ! 0) ''Longitude'' = Some (Coord 2)
        \<and> (out ! 0) ''a'' = Some (Text ''1 Main St''))"
proof -
  have h1: "file_state (sample_state sample_rows) = Some (Inr sample_rows)"
    by (simp add: sample_ready)
  have h2: "addressCol (sample_state sample_rows) \<noteq> [] \<or> cityCol (sample_state sample_rows) \<noteq> []
      \<or> countryCol (sample_state sample_rows) \<noteq> []"
    by (simp add: sample_ready)
  have h3: "apiKey (sample_state sample_rows) \<noteq> []"
    by (simp add: sample_ready)
  have h4: "0 < length sample_rows"
    by (simp add: sample_rows_def)
  have h5: "run_outcomes sample_platform (sample_state sample_rows) sample_rows ! 0 = Resolved 1 2"
    by (simp add: sample_outcomes)
  have old: "(sample_rows ! 0) ''Latitude'' = Some ''old''" "(sample_rows ! 0) ''a'' = Some ''1 Main St''"
    by (simp_all add: sample_rows_def)
  from coordinates_overwrite[OF h1 h2 h3 h4 h5] obtain out where
    out: "geocodedData (processFile sample_platform (sample_state sample_rows)) = Some out"
    and lat: "(out ! 0) ''Latitude'' = Some (Coord 1)"
    and lng: "(out ! 0) ''Longitude'' = Some (Coord 2)"
    and rest: "\<forall>k. k \<noteq> ''Latitude'' \<and> k \<noteq> ''Longitude''
          \<longrightarrow> (out ! 0) k = map_option Text ((sample_rows ! 0) k)"
    by blast
  have "(out ! 0) ''a'' = Some (Text ''1 Main St'')"
    using rest[rule_format, of "''a''"] old by simp
  then show ?thesis
    using out lat lng h5 old by (simp add: sample_ready)
qed

text \<open>
  C5. When no file is chosen, no column is selected or the key is empty,
  \<open>processFile\<close> only sets the error message: the tally, the output and the trace (so no request, no progress
  report) are as before. With a column and a key, a file of no rows yields the tally
  \<open>0, 0, [], []\<close> and the empty output, and no request is made.
\<close>

theorem configuration_checked_first:
  "(file_state st = None \<or> (addressCol st = [] \<and> cityCol st = [] \<and> countryCol st = [])
        \<or> apiKey st = []
      \<longrightarrow> processFile P st =
            st\<lparr>error_state :=
                 (if file_state st = None
                     \<or> (addressCol st = [] \<and> cityCol st = [] \<and> countryCol st = [])
                  then ''Please select a file and at least one location column''
                  else ''Please enter your Google Maps API Key'')\<rparr>
          \<and> results_state (processFile P st) = results_state st
          \<and> geocodedData (processFile P st) = geocodedData st
          \<and> trace (processFile P st) = trace st)
   \<and> (file_state st = Some (Inr [])
        \<and> (addressCol st \<noteq> [] \<or> cityCol st \<noteq> [] \<or> countryCol st \<noteq> [])
        \<and> apiKey st \<noteq> []
      \<longrightarrow> results_state (processFile P st) =
            Some \<lparr>totalRows = 0, processedRows = 0, skippedRows = [], errors = []\<rparr>
          \<and> geocodedData (processFile P st) = Some []
          \<and> filter is_Fetch (trace (processFile P st)) = filter is_Fetch (trace st))"
proof (intro conjI impI)
  assume bad: "file_state st = None
      \<or> (addressCol st = [] \<and> cityCol st = [] \<and> countryCol st = []) \<or> apiKey st = []"
  then show eq: "processFile P st =
      st\<lparr>error_state :=
           (if file_state st = None
               \<or> (addressCol st = [] \<and> cityCol st = [] \<and> countryCol st = [])
            then ''Please select a file and at least one location column''
            else ''Please enter your Google Maps API Key'')\<rparr>"
    by (auto simp add: processFile_def split: option.splits)
  show "results_state (processFile P st) = results_state st"
    by (simp add: eq)
  show "geocodedData (processFile P st) = geocodedData st"
    by (simp add: eq)
  show "trace (processFile P st) = trace st"
    by (simp add: eq)
next
  assume ok: "file_state st = Some (Inr [])
      \<and> (addressCol st \<noteq> [] \<or> cityCol st \<noteq> [] \<or> countryCol st \<noteq> [])
      \<and> apiKey st \<noteq> []"
  then have run: "processFile P st =
      (started st)\<lparr>results_state := Some (new_results 0), geocodedData := Some [],
                   processing := False\<rparr>"
    by (auto simp add: processFile_def)
  show "results_state (processFile P st) =
      Some \<lparr>totalRows = 0, processedRows = 0, skippedRows = [], errors = []\<rparr>"
    by (simp add: run new_results_def)
  show "geocodedData (processFile P st) = Some []"
    by (simp add: run)
  show "filter is_Fetch (trace (processFile P st)) = filter is_Fetch (trace st)"
    by (simp add: run)
qed

theorem configuration_checked_first_witness:
  "apiKey ((sample_state sample_rows)\<lparr>apiKey := []\<rparr>) = []
   \<and> processFile sample_platform ((sample_state sample_rows)\<lparr>apiKey := []\<rparr>) =
       (sample_state sample_rows)\<lparr>apiKey := [], error_state := ''Please enter your Google Maps API Key''\<rparr>
   \<and> trace (processFile sample_platform ((sample_state sample_rows)\<lparr>apiKey := []\<rparr>)) = []
   \<and> file_state (sample_state []) = Some (Inr [])
   \<and> results_state (processFile sample_platform (sample_state [])) =
       Some \<lparr>totalRows = 0, processedRows = 0, skippedRows = [], errors = []\<rparr>
   \<and> geocodedData (processFile sample_platform (sample_state [])) = Some []"
proof -
  let ?bad = "(sample_state sample_rows)\<lparr>apiKey := []\<rparr>"
  have b: "file_state ?bad = None
      \<or> (addressCol ?bad = [] \<and> cityCol ?bad = [] \<and> countryCol ?bad = []) \<or> apiKey ?bad = []"
    by simp
  have g: "file_state (sample_state []) = Some (Inr [])
      \<and> (addressCol (sample_state []) \<noteq> [] \<or> cityCol (sample_state []) \<noteq> []
           \<or> countryCol (sample_state []) \<noteq> [])
      \<and> apiKey (sample_state []) \<noteq> []"
    by (simp add: sample_ready)
  have "processFile sample_platform ?bad =
      ?bad\<lparr>error_state := ''Please enter your Google Maps API Key''\<rparr>"
    and "trace (processFile sample_platform ?bad) = []"
    using configuration_checked_first[of ?bad sample_platform] b
    by (simp_all add: sample_ready)
  moreover have "results_state (processFile sample_platform (sample_state [])) =
      Some \<lparr>totalRows = 0, processedRows = 0, skippedRows = [], errors = []\<rparr>"
    and "geocodedData (processFile sample_platform (sample_state [])) = Some []"
    using configuration_checked_first[of "sample_state []" sample_platform] g
    by simp_all
  ultimately show ?thesis
    by (simp add: sample_ready)
qed

text \<open>
  C3 (as the code has it). For a row with a query that could be encoded, the service's
  answer decides the outcome. A document with status \<open>OK\<close> whose first result is
  missing or falsy: the index goes to \<open>skippedRows\<close> and \<open>errors\<close> is unchanged. A
  document with any other status, \<open>ZERO_RESULTS\<close> included: the index goes to
  \<open>skippedRows\<close> and \<open>errors\<close> gains an entry with the message
  \<open>Geocoding failed: \<close> followed by the status. A failed request or unreadable body,
  or a first result whose location cannot be read: the same with the exception's
  message. A first result with a location: \<open>processedRows\<close> is incremented.
\<close>

theorem status_decides_outcome:
  assumes "locationParts P (addressCol st) (cityCol st) (countryCol st) r \<noteq> []"
    and "encodeURIComponent P (query P st r) = Inr e"
    and "fetch P (fetch_count (trace st)) (geocode_url e (apiKey st)) = reply"
  shows "fst (row_step P n i r (res, pr, st)) =
     (case reply of
        Throws msg \<Rightarrow>
          res\<lparr>errors := errors res @ [\<lparr>row = i + 1, error = msg, location = query P st r\<rparr>],
              skippedRows := skippedRows res @ [i + 1]\<rparr>
      | Json s rs \<Rightarrow>
          if s = StatusString ''OK'' then
            (case first_result rs of
               Falsy \<Rightarrow> res\<lparr>skippedRows := skippedRows res @ [i + 1]\<rparr>
             | NoLocation msg \<Rightarrow>
                 res\<lparr>errors := errors res @ [\<lparr>row = i + 1, error = msg, location = query P st r\<rparr>],
                     skippedRows := skippedRows res @ [i + 1]\<rparr>
             | Located lat lng \<Rightarrow> res\<lparr>processedRows := processedRows res + 1\<rparr>)
          else
            res\<lparr>errors := errors res @
                   [\<lparr>row = i + 1, error = ''Geocoding failed: '' @ status_text s,
                     location = query P st r\<rparr>],
                skippedRows := skippedRows res @ [i + 1]\<rparr>)"
proof -
  have oc: "outcome P st r =
     (case reply of
        Throws msg \<Rightarrow> Failed msg
      | Json s rs \<Rightarrow>
          if s = StatusString ''OK'' then
            (case first_result rs of
               Falsy \<Rightarrow> Unresolved
             | NoLocation msg \<Rightarrow> Failed msg
             | Located lat lng \<Rightarrow> Resolved lat lng)
          else Failed (''Geocoding failed: '' @ status_text s))"
    using assms
    by (simp add: outcome_def query_def geocodeAddress_def Let_def
        split: reply.splits geocode_result.splits)
  show ?thesis
    by (simp add: row_step_eq oc split: reply.splits geocode_result.splits)
qed

theorem status_decides_outcome_witness:
  "locationParts zero_results_platform ''a'' ''c'' [] [''a'' \<mapsto> ''Nowhere''] = [''Nowhere'']
   \<and> fetch zero_results_platform 0 (geocode_url ''Nowhere'' ''K'')
       = Json (StatusString ''ZERO_RESULTS'') (Some [])
   \<and> fst (row_step zero_results_platform 1 0 [''a'' \<mapsto> ''Nowhere'']
            (new_results 1, [], sample_state [[''a'' \<mapsto> ''Nowhere'']])) =
       \<lparr>totalRows = 1, processedRows = 0, skippedRows = [1],
        errors = [\<lparr>row = 1, error = ''Geocoding failed: ZERO_RESULTS'', location = ''Nowhere''\<rparr>]\<rparr>"
proof -
  let ?r = "[''a'' \<mapsto> ''Nowhere'']"
  let ?st = "sample_state [?r] :: rat component"
  have parts: "locationParts zero_results_platform (addressCol ?st) (cityCol ?st) (countryCol ?st) ?r = [''Nowhere'']"
    by (simp add: sample_ready locationParts_def part_def zero_results_platform_def
        object_prototype_def)
  then have h1: "locationParts zero_results_platform (addressCol ?st) (cityCol ?st) (countryCol ?st) ?r \<noteq> []"
    by simp
  have q: "query zero_results_platform ?st ?r = ''Nowhere''"
    by (simp add: query_def parts)
  have h2: "encodeURIComponent zero_results_platform (query zero_results_platform ?st ?r) = Inr ''Nowhere''"
    unfolding q by (simp add: zero_results_platform_def)
  have h3: "fetch zero_results_platform (fetch_count (trace ?st)) (geocode_url ''Nowhere'' (apiKey ?st))
      = Json (StatusString ''ZERO_RESULTS'') (Some [])"
    by (simp add: zero_results_platform_def)
  show ?thesis
    using status_decides_outcome[OF h1 h2 h3, of 1 0 "new_results 1" "[]"] parts h3 q
    by (simp add: sample_ready new_results_def fetch_count_def)
qed

text \<open>
  C3 as stated fails: the service answers the only row with status \<open>ZERO_RESULTS\<close> and
  an empty result list, and the run records an entry in \<open>errors\<close>.
\<close>

theorem zero_results_counterexample:
  "fetch zero_results_platform 0 (geocode_url ''Nowhere'' ''K'')
     = Json (StatusString ''ZERO_RESULTS'') (Some [])
   \<and> run_outcomes zero_results_platform (sample_state [[''a'' \<mapsto> ''Nowhere'']])
        [[''a'' \<mapsto> ''Nowhere'']] = [Failed ''Geocoding failed: ZERO_RESULTS'']
   \<and> results_state (processFile zero_results_platform (sample_state [[''a'' \<mapsto> ''Nowhere'']])) =
       Some \<lparr>totalRows = 1, processedRows = 0, skippedRows = [1],
             errors = [\<lparr>row = 1, error = ''Geocoding failed: ZERO_RESULTS'',
                        location = ''Nowhere''\<rparr>]\<rparr>"
  by (simp add: run_outcomes_def outcome_def run_simps zero_results_platform_def sample_state_def)

subsection \<open>Rows and columns apart from inherited members\<close>

text \<open>
  A row in which each selected column is empty, or is absent under a name that
  \<^verbatim>\<open>Object.prototype\<close> does not have, is skipped without a query: its index is in
  \<open>skippedRows\<close> exactly once, its output row holds the input row's cells and no
  other, and it adds no request to the trace.
\<close>

lemma no_query_row_skipped:
  assumes "file_state st = Some (Inr data)"
    and "addressCol st \<noteq> [] \<or> cityCol st \<noteq> [] \<or> countryCol st \<noteq> []"
    and "apiKey st \<noteq> []"
    and "j < length data"
    and "\<forall>c \<in> {addressCol st, cityCol st, countryCol st}.
           c = [] \<or> (data ! j) c = Some [] \<or> ((data ! j) c = None \<and> inherited P c = None)"
  shows "run_outcomes P st data ! j = NoQuery
     \<and> row_requests P st (data ! j) = []
     \<and> filter is_Fetch (trace (processFile P st)) =
         filter is_Fetch (trace st) @ concat (map (row_requests P st) data)
     \<and> (\<exists>R out. results_state (processFile P st) = Some R
           \<and> geocodedData (processFile P st) = Some out
           \<and> count_list (skippedRows R) (j + 1) = 1
           \<and> (\<forall>k. (out ! j) k = map_option Text ((data ! j) k)))"
proof -
  let ?s = "(new_results (length data), [], started st)"
  let ?R = "fst (loop P (length data) 0 data ?s)"
  let ?os = "run_outcomes P st data"
  let ?out = "map2 augment ?os (map spread data)"
  have parts: "locationParts P (addressCol st) (cityCol st) (countryCol st) (data ! j) = []"
    using assms(5) by (simp only: locationParts_empty_iff)
  have oc: "?os ! j = NoQuery"
    using assms(4) parts by (simp add: run_outcomes_def outcomes_no_query)
  have req: "row_requests P st (data ! j) = []"
    using parts by (simp add: row_requests_def)
  have fetches: "filter is_Fetch (trace (processFile P st)) =
      filter is_Fetch (trace st) @ concat (map (row_requests P st) data)"
    by (simp add: run_trace_eq[OF assms(1-3)] fetches_rows)
  have skip: "skippedRows ?R = map (\<lambda>(j, oc). j + 1)
      (filter (\<lambda>(j, oc). \<not> is_Resolved oc) (enumerate 0 ?os))"
    by (simp add: loop_skippedRows run_outcomes_def new_results_def)
  have "j + 1 \<in> set (skippedRows ?R)"
    using skipped_member[of j ?os 0] assms(4) oc unfolding skip
    by (simp add: run_outcomes_def)
  moreover have "distinct (skippedRows ?R)"
    unfolding skip by (rule distinct_skipped)
  ultimately have once: "count_list (skippedRows ?R) (j + 1) = 1"
    by (rule distinct_count_list[rotated])
  have "?out ! j = spread (data ! j)"
    using assms(4) oc by (simp add: run_outcomes_def)
  then have copy: "\<forall>k. (?out ! j) k = map_option Text ((data ! j) k)"
    by (simp add: spread_def)
  show ?thesis
    using oc req fetches run_results[OF assms(1-3), of P] run_output[OF assms(1-3), of P]
      once copy
    by blast
qed

text \<open>
  When no row lacks a selected column under a name that \<^verbatim>\<open>Object.prototype\<close> has,
  the requests of a run are, in row order, one for each row with a selected value that
  is not empty: for these values joined with a comma and a space, URL-encoded.
\<close>

lemma requests_from_selected_values:
  assumes "file_state st = Some (Inr data)"
    and "addressCol st \<noteq> [] \<or> cityCol st \<noteq> [] \<or> countryCol st \<noteq> []"
    and "apiKey st \<noteq> []"
    and "\<forall>r \<in> set data. \<forall>c \<in> {addressCol st, cityCol st, countryCol st}.
           c = [] \<or> r c \<noteq> None \<or> inherited P c = None"
  shows "filter is_Fetch (trace (processFile P st)) =
     filter is_Fetch (trace st) @
     concat (map (\<lambda>r. if selected_values st r = [] then []
                       else (case encodeURIComponent P (join '', '' (selected_values st r)) of
                               Inl _ \<Rightarrow> []
                             | Inr e \<Rightarrow> [Fetch (geocode_url e (apiKey st))])) data)"
proof -
  have rr: "row_requests P st r =
      (if selected_values st r = [] then []
       else (case encodeURIComponent P (join '', '' (selected_values st r)) of
               Inl _ \<Rightarrow> []
             | Inr e \<Rightarrow> [Fetch (geocode_url e (apiKey st))]))" if "r \<in> set data" for r
  proof -
    have "locationParts P (addressCol st) (cityCol st) (countryCol st) r = selected_values st r"
      using bspec[OF assms(4) that] by (rule locationParts_selected)
    then show ?thesis
      by (simp add: row_requests_def query_def)
  qed
  have "filter is_Fetch (trace (processFile P st)) =
      filter is_Fetch (trace st) @ concat (map (row_requests P st) data)"
    by (simp add: run_trace_eq[OF assms(1-3)] fetches_rows)
  also have "map (row_requests P st) data =
      map (\<lambda>r. if selected_values st r = [] then []
                else (case encodeURIComponent P (join '', '' (selected_values st r)) of
                        Inl _ \<Rightarrow> []
                      | Inr e \<Rightarrow> [Fetch (geocode_url e (apiKey st))])) data"
    using rr by (intro map_cong) simp_all
  finally show ?thesis .
qed

subsection \<open>Columns named like a member of \<^verbatim>\<open>Object.prototype\<close>\<close>

text \<open>
  C6. The code departs from the claim. The column \<open>constructor\<close> is selected and the
  only row has no cell under it (its one cell is in column \<open>a\<close>). The row is not
  skipped: \<^verbatim>\<open>row[addressCol]\<close> finds the inherited \<^verbatim>\<open>Object.prototype.constructor\<close>,
  which is truthy, so a query is built from its text, a request is made for it, and
  with the answer the row counts as processed.
\<close>

theorem absent_column_inherits_query:
  "[''a'' \<mapsto> ''x''] ''constructor'' = None
   \<and> locationParts sample_platform ''constructor'' [] [] [''a'' \<mapsto> ''x''] =
       [''function Object() { [native code] }'']
   \<and> run_outcomes sample_platform
        ((sample_state [[''a'' \<mapsto> ''x'']])\<lparr>addressCol := ''constructor'', cityCol := []\<rparr>)
        [[''a'' \<mapsto> ''x'']] = [Resolved 1 2]
   \<and> results_state (processFile sample_platform
        ((sample_state [[''a'' \<mapsto> ''x'']])\<lparr>addressCol := ''constructor'', cityCol := []\<rparr>)) =
       Some \<lparr>totalRows = 1, processedRows = 1, skippedRows = [], errors = []\<rparr>
   \<and> filter is_Fetch (trace (processFile sample_platform
        ((sample_state [[''a'' \<mapsto> ''x'']])\<lparr>addressCol := ''constructor'', cityCol := []\<rparr>))) =
       [Fetch (geocode_url ''function Object() { [native code] }'' ''K'')]"
  by (simp add: run_outcomes_def outcome_def run_simps sample_platform_def sample_state_def)

text \<open>
  C7. The code departs from the claim. The columns \<open>a\<close> (address) and \<open>constructor\<close>
  (city) are selected; the only row has the cell \<open>x\<close> in column \<open>a\<close> and no cell in
  column \<open>constructor\<close>. The one selected value that is not empty is \<open>x\<close>, but the
  query sent is \<open>x\<close> followed by the text of the inherited
  \<^verbatim>\<open>Object.prototype.constructor\<close>.
\<close>

theorem inherited_member_in_query:
  "selected_values ((sample_state [[''a'' \<mapsto> ''x'']])\<lparr>cityCol := ''constructor''\<rparr>)
      [''a'' \<mapsto> ''x''] = [''x'']
   \<and> locationParts sample_platform ''a'' ''constructor'' [] [''a'' \<mapsto> ''x''] =
       [''x'', ''function Object() { [native code] }'']
   \<and> filter is_Fetch (trace (processFile sample_platform
        ((sample_state [[''a'' \<mapsto> ''x'']])\<lparr>cityCol := ''constructor''\<rparr>))) =
       [Fetch (geocode_url ''x, function Object() { [native code] }'' ''K'')]"
  by (simp add: selected_values_def run_simps sample_platform_def sample_state_def)

text \<open>
  C8 (as the code has it). In a run that passes the configuration checks and reads its
  file, each row contributes to the trace its request (if any), then its progress
  report, then the pause of 200 ms: the pause follows every row, with or without a
  request, so a run of \<open>n\<close> rows pauses \<open>n\<close> times.
\<close>

theorem delay_after_every_row:
  assumes "file_state st = Some (Inr data)"
    and "addressCol st \<noteq> [] \<or> cityCol st \<noteq> [] \<or> countryCol st \<noteq> []"
    and "apiKey st \<noteq> []"
  shows "trace (processFile P st) =
       trace st @ SetProgress 0 #
         concat (map (\<lambda>(j, r). row_requests P st r
                                  @ [SetProgress (percent (j + 1) (length data)), Delay 200])
                   (enumerate 0 data))
     \<and> filter is_Delay (trace (processFile P st)) =
         filter is_Delay (trace st) @ replicate (length data) (Delay 200)"
  by (simp add: run_trace_eq[OF assms] delays_rows)

theorem delay_after_every_row_witness:
  "file_state (sample_state sample_rows) = Some (Inr sample_rows)
   \<and> apiKey (sample_state sample_rows) = ''K''
   \<and> length sample_rows = 5
   \<and> row_requests sample_platform (sample_state sample_rows) (sample_rows ! 1) = []
   \<and> filter is_Delay (trace (processFile sample_platform (sample_state sample_rows))) =
       [Delay 200, Delay 200, Delay 200, Delay 200, Delay 200]"
proof -
  let ?st = "sample_state sample_rows :: rat component"
  have h1: "file_state ?st = Some (Inr sample_rows)"
    by (simp add: sample_ready)
  have h2: "addressCol ?st \<noteq> [] \<or> cityCol ?st \<noteq> [] \<or> countryCol ?st \<noteq> []"
    by (simp add: sample_ready)
  have h3: "apiKey ?st \<noteq> []"
    by (simp add: sample_ready)
  have len: "length sample_rows = 5"
    by (simp add: sample_rows_def)
  have req: "row_requests sample_platform ?st (sample_rows ! 1) = []"
    by (simp add: row_requests_def locationParts_def part_def sample_ready sample_rows_def)
  have five: "replicate 5 (Delay 200) = [Delay 200, Delay 200, Delay 200, Delay 200, Delay 200]"
    by (simp add: numeral_eq_Suc)
  from delay_after_every_row[OF h1 h2 h3, of sample_platform]
  have "filter is_Delay (trace (processFile sample_platform ?st)) =
      filter is_Delay (trace ?st) @ replicate (length sample_rows) (Delay 200)"
    by (rule conjunct2)
  then have "filter is_Delay (trace (processFile sample_platform ?st)) =
      [Delay 200, Delay 200, Delay 200, Delay 200, Delay 200]"
    by (simp add: sample_ready len five)
  then show ?thesis
    using h1 len req by (simp add: sample_ready)
qed

text \<open>
  C8 as stated fails: the only row has its two selected columns empty, no request is
  made for it, and the pause follows it all the same.
\<close>

theorem delay_without_request_counterexample:
  "locationParts sample_platform ''a'' ''c'' [] [''a'' \<mapsto> [], ''c'' \<mapsto> []] = []
   \<and> trace (processFile sample_platform (sample_state [[''a'' \<mapsto> [], ''c'' \<mapsto> []]])) =
       [SetProgress 0, SetProgress 100, Delay 200]"
  by (simp add: run_simps sample_platform_def sample_state_def)

text \<open>
  C9 (as the code has it). In a run that passes the configuration checks and reads its
  file of \<open>n\<close> rows (an array, so \<open>n < 2^32\<close>), the progress reports are \<open>0\<close> at the
  start and then, after each row whatever its outcome, the double that line 144 computes
  for \<open>(rows handled) / n * 100\<close>. This double is within \<open>2^-44\<close> of the exact
  percentage. The sequence is strictly increasing, and the value \<open>100\<close> is reported
  after the last row and after no other. (For three rows the reports after the first
  two are the doubles printed as 33.33333333333333 and 66.66666666666666.)
\<close>

theorem progress_in_percent:
  assumes "file_state st = Some (Inr data)"
    and "addressCol st \<noteq> [] \<or> cityCol st \<noteq> [] \<or> countryCol st \<noteq> []"
    and "apiKey st \<noteq> []"
    and "length data < 2 ^ 32"
  shows "reports (trace (processFile P st)) =
       reports (trace st) @ 0 # map (\<lambda>j. percent (j + 1) (length data)) [0..<length data]
     \<and> sorted_wrt (<) (0 # map (\<lambda>j. percent (j + 1) (length data)) [0..<length data])
     \<and> (\<forall>j < length data. percent (j + 1) (length data) = 100 \<longleftrightarrow> j + 1 = length data)
     \<and> (\<forall>j < length data.
           \<bar>percent (j + 1) (length data) - of_nat (j + 1) / of_nat (length data) * 100\<bar>
             \<le> 1 / 2 ^ 44)"
proof -
  have "reports (trace (processFile P st)) =
      reports (trace st) @ 0 # map (\<lambda>j. percent (j + 1) (length data)) [0..<length data]"
    using reports_rows[of P st "\<lambda>j. percent (j + 1) (length data)" 200 0 data]
    by (simp add: run_trace_eq[OF assms(1-3)] reports_append) (simp add: reports_def)
  moreover have "\<forall>j < length data.
      percent (j + 1) (length data) = 100 \<longleftrightarrow> j + 1 = length data"
  proof (intro allI impI)
    fix j
    assume "j < length data"
    then show "percent (j + 1) (length data) = 100 \<longleftrightarrow> j + 1 = length data"
      using assms(4) by (intro percent_full) simp_all
  qed
  moreover have "\<forall>j < length data.
      \<bar>percent (j + 1) (length data) - of_nat (j + 1) / of_nat (length data) * 100\<bar>
        \<le> 1 / 2 ^ 44"
  proof (intro allI impI)
    fix j
    assume "j < length data"
    then show "\<bar>percent (j + 1) (length data)
        - of_nat (j + 1) / of_nat (length data) * 100\<bar> \<le> 1 / 2 ^ 44"
      using assms(4) by (intro percent_close) simp_all
  qed
  ultimately show ?thesis
    using percent_increasing[OF assms(4)] by blast
qed

theorem progress_in_percent_witness:
  "file_state (sample_state sample_rows) = Some (Inr sample_rows)
   \<and> apiKey (sample_state sample_rows) = ''K''
   \<and> length sample_rows = 5
   \<and> reports (trace (processFile sample_platform (sample_state sample_rows))) =
       [0, 20, 40, 60, 80, 100]
   \<and> percent 5 5 = 100
   \<and> percent 4 5 < 100
   \<and> percent 1 3 = 2345624805922133 / 70368744177664
   \<and> percent 2 3 = 2345624805922133 / 35184372088832"
proof -
  let ?st = "sample_state sample_rows :: rat component"
  have h1: "file_state ?st = Some (Inr sample_rows)"
    by (simp add: sample_ready)
  have h2: "addressCol ?st \<noteq> [] \<or> cityCol ?st \<noteq> [] \<or> countryCol ?st \<noteq> []"
    by (simp add: sample_ready)
  have h3: "apiKey ?st \<noteq> []"
    by (simp add: sample_ready)
  have len: "length sample_rows = 5"
    by (simp add: sample_rows_def)
  have h4: "length sample_rows < 2 ^ 32"
    by (simp add: len)
  have vals: "percent 4 5 = 80" "percent 1 3 = 2345624805922133 / 70368744177664"
    "percent 2 3 = 2345624805922133 / 35184372088832"
    by code_simp+
  from progress_in_percent[OF h1 h2 h3 h4, of sample_platform]
  have rep: "reports (trace (processFile sample_platform ?st)) =
      reports (trace ?st) @ 0 # map (\<lambda>j. percent (j + 1) (length sample_rows))
        [0..<length sample_rows]"
    and full: "\<forall>j < length sample_rows.
      percent (j + 1) (length sample_rows) = 100 \<longleftrightarrow> j + 1 = length sample_rows"
    by simp_all
  have "reports (trace (processFile sample_platform ?st)) = [0, 20, 40, 60, 80, 100]"
    unfolding rep by (simp add: sample_ready reports_def sample_rows_def percent_samples)
  moreover have "percent 5 5 = 100"
    using full[rule_format, of 4] by (simp add: len)
  moreover have "percent 4 5 < 100"
    by (simp add: vals)
  ultimately show ?thesis
    using h1 len vals(2,3) by (simp add: sample_ready)
qed

text \<open>
  C9 as stated fails: in a run of two rows the report after the first row is \<open>50\<close>,
  not the fraction \<open>1/2\<close>, and the run ends on \<open>100\<close>; the value \<open>1\<close> is never
  reported.
\<close>

theorem progress_fraction_counterexample:
  "reports (trace (processFile zero_results_platform
      (sample_state [[''a'' \<mapsto> ''Nowhere''], [''c'' \<mapsto> ''Paris'']]))) = [0, 50, 100]"
  by (simp add: reports_def run_simps zero_results_platform_def sample_state_def)

end
